theory Spec2Isabelle
  imports Complex_Main "HOL-Library.Word"
begin

section \<open>The spam detector of lib/detector.go\<close>

text \<open>
  A shallow embedding of \<^verbatim>\<open>lib/detector.go\<close>. The Go type \<^verbatim>\<open>int\<close> is the
  64-bit machine integer of the usual targets: a \<open>64 word\<close> read through \<open>sint\<close>,
  so that \<open>+\<close> and \<open>*\<close> wrap as they do in Go. A Go \<^verbatim>\<open>string\<close> is a list of
  bytes. A \<^verbatim>\<open>map[string]int\<close> that the code only reads and writes by key is a
  partial function; one that the code iterates over (a token-frequency map) is an
  association list with distinct keys, whose order stands for one iteration order.
\<close>

type_synonym goint = "64 word"

subsection \<open>float64\<close>

text \<open>
  A \<^verbatim>\<open>float64\<close> is a finite value or NaN (infinities do not arise from the
  detector's arithmetic and are left out). Every arithmetic operation rounds its exact
  result to the nearest binary64 number, ties to even, as IEEE 754 prescribes; the
  exponent range is not bounded, which agrees with binary64 on the normal range
  \<open>2 powr -1022 \<le> \<bar>x\<bar> < 2 powr 1024\<close>. Comparisons with NaN are false.
\<close>

datatype float64 = F64 real | NaN

definition pow2 :: "int \<Rightarrow> real" where
  "pow2 e = (if 0 \<le> e then 2 ^ nat e else 1 / 2 ^ nat (- e))"

definition roundHalfEven :: "real \<Rightarrow> int" where
  "roundHalfEven y =
     (let f = \<lfloor>y\<rfloor>; r = y - of_int f
      in if r < 1 / 2 then f
         else if 1 / 2 < r then f + 1
         else if even f then f else f + 1)"

definition rnd :: "real \<Rightarrow> real" where
  "rnd x =
     (if x = 0 then 0
      else let e = \<lfloor>log 2 \<bar>x\<bar>\<rfloor>
           in of_int (roundHalfEven (x * pow2 (52 - e))) * pow2 (e - 52))"

definition f64_of_int :: "goint \<Rightarrow> float64" where
  "f64_of_int i = F64 (rnd (of_int (sint i)))"

fun f64_sqrt :: "float64 \<Rightarrow> float64" where
  "f64_sqrt (F64 x) = (if x < 0 then NaN else F64 (rnd (sqrt x)))"
| "f64_sqrt NaN = NaN"

fun f64_mul :: "float64 \<Rightarrow> float64 \<Rightarrow> float64" where
  "f64_mul (F64 x) (F64 y) = F64 (rnd (x * y))"
| "f64_mul _ _ = NaN"

text \<open>Division by zero gives an infinity or NaN in Go; the model has no infinity and
  returns NaN. \<open>cosineSimilarity\<close> never divides by zero.\<close>

fun f64_div :: "float64 \<Rightarrow> float64 \<Rightarrow> float64" where
  "f64_div (F64 x) (F64 y) = (if y = 0 then NaN else F64 (rnd (x / y)))"
| "f64_div _ _ = NaN"

fun f64_gt :: "float64 \<Rightarrow> float64 \<Rightarrow> bool" where
  "f64_gt (F64 x) (F64 y) = (y < x)"
| "f64_gt _ _ = False"

fun f64_ge :: "float64 \<Rightarrow> float64 \<Rightarrow> bool" where
  "f64_ge (F64 x) (F64 y) = (y \<le> x)"
| "f64_ge _ _ = False"

fun f64_eq :: "float64 \<Rightarrow> float64 \<Rightarrow> bool" where
  "f64_eq (F64 x) (F64 y) = (x = y)"
| "f64_eq _ _ = False"

subsection \<open>Data\<close>

record CheckResult =
  Name :: string
  Spam :: bool
  Details :: string

record LoadResult =
  ExcludedTokens :: goint
  SpamSamples :: goint
  HamSamples :: goint
  StopWords :: goint

text \<open>An \<^verbatim>\<open>error\<close> value: a message, or \<^verbatim>\<open>fmt.Errorf("...: %w", err)\<close> wrapping
  another error under a message.\<close>

datatype goerror = ErrorString string | Wrapped string goerror

text \<open>\<^verbatim>\<open>SampleUpdater\<close>: only \<^verbatim>\<open>Append\<close> is called by the detector. It answers
  \<open>None\<close> for a nil error.\<close>

record SampleUpdater =
  Append :: "string \<Rightarrow> goerror option"

text \<open>An \<^verbatim>\<open>io.ReadCloser\<close>, as the body of a response: the bytes that reading it
  delivers, and the error other than \<^verbatim>\<open>io.EOF\<close> that ends them, if any.\<close>

record ReadCloser =
  readBytes :: string
  readErr :: "goerror option"

text \<open>Of an \<^verbatim>\<open>http.Response\<close> the detector uses the field \<^verbatim>\<open>Body\<close>, an interface
  value: \<open>None\<close> is nil.\<close>

record Response =
  Body :: "ReadCloser option"

text \<open>\<^verbatim>\<open>HTTPClient.Do\<close> on the GET request for a URL returns the two results
  \<^verbatim>\<open>(resp, err)\<close>: a pointer to a response and an error, each of which may be nil
  (\<open>None\<close>). Nothing in the interface ties one to the other.\<close>

type_synonym HTTPClient = "string \<Rightarrow> Response option \<times> goerror option"

text \<open>The fields of \<^verbatim>\<open>Config\<close>. \<^verbatim>\<open>HTTPClient\<close> is an interface value: \<open>None\<close> is
  nil, which is what a \<^verbatim>\<open>Config\<close> literal that does not name the field holds.\<close>

record Config =
  SimilarityThreshold :: float64
  MinMsgLen :: goint
  MaxAllowedEmoji :: goint
  CasAPI :: string
  FirstMessageOnly :: bool
  FirstMessagesCount :: goint
  HTTPClient :: "HTTPClient option"
  MinSpamProbability :: float64
  OpenAIVeto :: bool

type_synonym tokenFreq = "(string \<times> goint) list"

text \<open>
  Modelled from the spec: the naive-Bayes classifier (\<^verbatim>\<open>classifier\<close>, with
  \<^verbatim>\<open>newClassifier\<close>, \<^verbatim>\<open>reset\<close> and \<^verbatim>\<open>learn\<close>), which the detector uses and whose
  source file is not among the sources. The state is the aggregate counts of the
  spec's ClassifierState; \<open>nAllDocument\<close> is the field the detector reads (the spec's
  totalDocs). \<^verbatim>\<open>reset\<close> sets all counts to zero and the vocabulary to empty.
  \<^verbatim>\<open>learn\<close>, for each document, increments the class's document count and the total,
  and for each distinct token increments the class's count of the token and the
  class's token total by 1, adding the token to the vocabulary.
\<close>

record document =
  spamClass :: string
  tokens :: "string list"

record classifier =
  docsPerClass :: "string \<Rightarrow> goint"
  tokenCount :: "string \<Rightarrow> string \<Rightarrow> goint"
  totalTokens :: "string \<Rightarrow> goint"
  nAllDocument :: goint
  vocabulary :: "string set"

definition newClassifier :: classifier where
  "newClassifier =
     \<lparr>docsPerClass = (\<lambda>c. 0), tokenCount = (\<lambda>c t. 0), totalTokens = (\<lambda>c. 0),
      nAllDocument = 0, vocabulary = {}\<rparr>"

definition reset :: "classifier \<Rightarrow> classifier" where
  "reset c = newClassifier"

definition learnToken :: "string \<Rightarrow> string \<Rightarrow> classifier \<Rightarrow> classifier" where
  "learnToken cl t c =
     c\<lparr>tokenCount := (tokenCount c)(cl := (tokenCount c cl)(t := tokenCount c cl t + 1)),
       totalTokens := (totalTokens c)(cl := totalTokens c cl + 1),
       vocabulary := insert t (vocabulary c)\<rparr>"

definition learnDoc :: "document \<Rightarrow> classifier \<Rightarrow> classifier" where
  "learnDoc doc c =
     fold (learnToken (spamClass doc)) (remdups (tokens doc))
       (c\<lparr>docsPerClass := (docsPerClass c)(spamClass doc := docsPerClass c (spamClass doc) + 1),
          nAllDocument := nAllDocument c + 1\<rparr>)"

definition learn :: "classifier \<Rightarrow> document list \<Rightarrow> classifier" where
  "learn c docs = fold learnDoc docs c"

text \<open>The \<^verbatim>\<open>Detector\<close> struct. \<open>config\<close> is the embedded \<^verbatim>\<open>Config\<close>. The pointer
  \<^verbatim>\<open>openaiChecker\<close> is nil (\<open>None\<close>) or a checker, which is its method
  \<^verbatim>\<open>check(msg)\<close>; a nil \<^verbatim>\<open>SampleUpdater\<close> is \<open>None\<close>. \<open>approvedUsers\<close> is never a nil
  map: \<^verbatim>\<open>NewDetector\<close>, \<^verbatim>\<open>Reset\<close> and \<^verbatim>\<open>LoadApprovedUsers\<close> make it. The lock is
  left out: the model runs one call at a time.\<close>

record Detector =
  config :: Config
  classifier :: classifier
  openaiChecker :: "(string \<Rightarrow> bool \<times> CheckResult) option"
  tokenizedSpam :: "tokenFreq list"
  approvedUsers :: "string \<rightharpoonup> goint"
  stopWords :: "string list"
  excludedTokens :: "string list"
  spamSamplesUpd :: "SampleUpdater option"
  hamSamplesUpd :: "SampleUpdater option"

subsection \<open>What the detector takes from outside its file\<close>

text \<open>
  The functions of the Go library whose results depend on Unicode tables, on
  formatting or on parsing, and the helpers of the package whose source is not among
  the sources (\<^verbatim>\<open>cleanEmoji\<close>, \<^verbatim>\<open>countEmoji\<close>, \<^verbatim>\<open>classifier.classify\<close>), are
  parameters of the model: every theorem holds whatever they compute.
  \<open>runeCount s\<close> is \<^verbatim>\<open>len([]rune(s))\<close>; \<open>NewRequest url\<close> is the error of
  \<^verbatim>\<open>http.NewRequest("GET", url, http.NoBody)\<close>, if any; \<open>jsonDecode body\<close> is the
  outcome of \<^verbatim>\<open>json.NewDecoder(body).Decode\<close> into \<^verbatim>\<open>{ok, description}\<close>, an error
  or the two fields; \<open>scanString s\<close> is what a
  \<^verbatim>\<open>bufio.Scanner\<close> reads from \<^verbatim>\<open>bytes.NewBufferString(s)\<close>.
\<close>

text \<open>An \<^verbatim>\<open>io.Reader\<close> as a \<^verbatim>\<open>bufio.Scanner\<close> sees it: the lines it yields before
  it stops, and the error \<^verbatim>\<open>scanner.Err()\<close> then reports, if any.\<close>

record reader =
  scanLines :: "string list"
  scanErr :: "goerror option"

record golib =
  ToLower :: "string \<Rightarrow> string"
  EqualFold :: "string \<Rightarrow> string \<Rightarrow> bool"
  Fields :: "string \<Rightarrow> string list"
  runeCount :: "string \<Rightarrow> nat"
  sprintf_q :: "string \<Rightarrow> string"
  sprintf_d :: "goint \<Rightarrow> string"
  sprintf_f2 :: "float64 \<Rightarrow> string"
  NewRequest :: "string \<Rightarrow> goerror option"
  jsonDecode :: "ReadCloser \<Rightarrow> goerror + (bool \<times> string)"
  scanString :: "string \<Rightarrow> reader"
  cleanEmoji :: "string \<Rightarrow> string"
  countEmoji :: "string \<Rightarrow> goint"
  classify :: "classifier \<Rightarrow> string list \<Rightarrow> string \<times> float64 \<times> bool"

subsection \<open>Library functions that work on bytes\<close>

fun errorText :: "goerror \<Rightarrow> string" where
  "errorText (ErrorString s) = s"
| "errorText (Wrapped s e) = s @ errorText e"

fun HasPrefix :: "string \<Rightarrow> string \<Rightarrow> bool" where
  "HasPrefix s [] = True"
| "HasPrefix [] (c # cs) = False"
| "HasPrefix (x # xs) (c # cs) = (x = c \<and> HasPrefix xs cs)"

fun Contains :: "string \<Rightarrow> string \<Rightarrow> bool" where
  "Contains [] sub = (sub = [])"
| "Contains (x # xs) sub = (HasPrefix (x # xs) sub \<or> Contains xs sub)"

definition TrimSuffix :: "string \<Rightarrow> string \<Rightarrow> string" where
  "TrimSuffix s suffix =
     (if HasPrefix (rev s) (rev suffix) then take (length s - length suffix) s else s)"

text \<open>\<^verbatim>\<open>strings.Trim\<close> with a cutset of ASCII characters removes the same bytes from
  both ends: no byte of a longer UTF-8 sequence is an ASCII character.\<close>

definition Trim :: "string \<Rightarrow> string \<Rightarrow> string" where
  "Trim s cutset =
     rev (dropWhile (\<lambda>c. c \<in> set cutset) (rev (dropWhile (\<lambda>c. c \<in> set cutset) s)))"

text \<open>\<^verbatim>\<open>strings.Split(s, ",")\<close>, for the separator \<open>sep\<close> of one byte.\<close>

fun Split :: "string \<Rightarrow> char \<Rightarrow> string list" where
  "Split [] sep = [[]]"
| "Split (x # xs) sep =
     (if x = sep then [] # Split xs sep
      else (case Split xs sep of [] \<Rightarrow> [[x]] | p # ps \<Rightarrow> (x # p) # ps))"

text \<open>\<^verbatim>\<open>strconv.ParseInt(s, 10, 64)\<close>: an optional sign, then one or more decimal
  digits, and a value within the signed 64-bit range; \<open>None\<close> is an error.\<close>

definition isDigit :: "char \<Rightarrow> bool" where
  "isDigit c = (48 \<le> (of_char c :: nat) \<and> (of_char c :: nat) \<le> 57)"

definition digitsValue :: "string \<Rightarrow> nat" where
  "digitsValue ds = fold (\<lambda>c n. 10 * n + ((of_char c :: nat) - 48)) ds 0"

definition ParseInt :: "string \<Rightarrow> int option" where
  "ParseInt s =
     (let neg = (s \<noteq> [] \<and> hd s = CHR ''-'');
          ds = (if s \<noteq> [] \<and> (hd s = CHR ''+'' \<or> hd s = CHR ''-'') then tl s else s)
      in if ds = [] \<or> \<not> list_all isDigit ds then None
         else let un = int (digitsValue ds)
              in if neg then (if un \<le> 2 ^ 63 then Some (- un) else None)
                 else (if un < 2 ^ 63 then Some un else None))"

subsection \<open>Token-frequency maps\<close>

definition mapGet :: "tokenFreq \<Rightarrow> string \<Rightarrow> goint" where
  "mapGet m k = (case map_of m k of None \<Rightarrow> 0 | Some v \<Rightarrow> v)"

definition mapIncr :: "tokenFreq \<Rightarrow> string \<Rightarrow> tokenFreq" where
  "mapIncr m k =
     (case map_of m k of
        None \<Rightarrow> m @ [(k, 1)]
      | Some v \<Rightarrow> map (\<lambda>(k', v'). if k' = k then (k', v' + 1) else (k', v')) m)"

definition mapKeys :: "tokenFreq \<Rightarrow> string list" where
  "mapKeys m = map fst m"

subsection \<open>tokenChan and tokenize\<close>

definition lineTokens :: "string \<Rightarrow> string list" where
  "lineTokens line =
     (if Contains line '','' \<and> HasPrefix line [CHR 0x22]
      then filter (\<lambda>cleanToken. cleanToken \<noteq> [])
             (map (\<lambda>token. Trim token [CHR 0x20, CHR 0x22, CHR 0x0A, CHR 0x0D, CHR 0x09])
                (Split line CHR '',''))
      else (let cleanToken = Trim line [CHR 0x20, CHR 0x0A, CHR 0x0D, CHR 0x09]
            in if cleanToken \<noteq> [] then [cleanToken] else []))"

text \<open>The tokens the channel of \<^verbatim>\<open>tokenChan\<close> delivers, in order. A read error is
  logged and the next reader is read.\<close>

definition tokenChan :: "reader list \<Rightarrow> string list" where
  "tokenChan readers = concat (map (\<lambda>r. concat (map lineTokens (scanLines r))) readers)"

fun isExcludedToken :: "golib \<Rightarrow> string list \<Rightarrow> string \<Rightarrow> bool" where
  "isExcludedToken L [] token = False"
| "isExcludedToken L (w # ws) token =
     (if EqualFold L token w then True else isExcludedToken L ws token)"

fun tokenizeLoop :: "golib \<Rightarrow> Detector \<Rightarrow> string list \<Rightarrow> tokenFreq \<Rightarrow> tokenFreq" where
  "tokenizeLoop L d [] tokenFrequency = tokenFrequency"
| "tokenizeLoop L d (token # rest) tokenFrequency =
     (if isExcludedToken L (excludedTokens d) token then tokenizeLoop L d rest tokenFrequency
      else let token1 = cleanEmoji L token;
               token2 = Trim token1 ''.,!?-:;()#'';
               token3 = ToLower L token2
           in if runeCount L token3 < 3 then tokenizeLoop L d rest tokenFrequency
              else tokenizeLoop L d rest (mapIncr tokenFrequency (ToLower L token3)))"

definition tokenize :: "golib \<Rightarrow> Detector \<Rightarrow> string \<Rightarrow> tokenFreq" where
  "tokenize L d inp = tokenizeLoop L d (Fields L inp) []"

subsection \<open>The checks\<close>

text \<open>The message of \<^verbatim>\<open>isStopWord\<close> is lowercased and cleaned once, then the loop
  over the stop words returns at the first one it contains.\<close>

fun stopWordLoop :: "golib \<Rightarrow> string \<Rightarrow> string list \<Rightarrow> CheckResult" where
  "stopWordLoop L cleanMsg [] =
     \<lparr>Name = ''stopword'', Spam = False, Details = ''not found''\<rparr>"
| "stopWordLoop L cleanMsg (word # rest) =
     (if Contains cleanMsg (ToLower L word)
      then \<lparr>Name = ''stopword'', Spam = True, Details = word\<rparr>
      else stopWordLoop L cleanMsg rest)"

definition isStopWord :: "golib \<Rightarrow> Detector \<Rightarrow> string \<Rightarrow> CheckResult" where
  "isStopWord L d msg = stopWordLoop L (cleanEmoji L (ToLower L msg)) (stopWords d)"

definition isManyEmojis :: "golib \<Rightarrow> Detector \<Rightarrow> string \<Rightarrow> CheckResult" where
  "isManyEmojis L d msg =
     (let count = countEmoji L msg
      in \<lparr>Name = ''emoji'', Spam = (sint (MaxAllowedEmoji (config d)) < sint count),
          Details = sprintf_d L count @ ''/'' @ sprintf_d L (MaxAllowedEmoji (config d))\<rparr>)"

text \<open>\<^verbatim>\<open>cosineSimilarity\<close>: the first loop runs over the entries of \<open>a\<close> and carries
  \<open>(dotProduct, normA)\<close>, the second runs over the entries of \<open>b\<close>; the sums are
  64-bit.\<close>

definition cosineSimilarity :: "tokenFreq \<Rightarrow> tokenFreq \<Rightarrow> float64" where
  "cosineSimilarity a b =
     (if length a = 0 \<or> length b = 0 then F64 0
      else let (dotProduct, normA) =
                 fold (\<lambda>(key, val) (dp, na). (dp + val * mapGet b key, na + val * val)) a (0, 0);
               normB = fold (\<lambda>(key, val) nb. nb + val * val) b 0
           in if normA = 0 \<or> normB = 0 then F64 0
              else f64_div (f64_of_int dotProduct)
                     (f64_mul (f64_sqrt (f64_of_int normA)) (f64_sqrt (f64_of_int normB))))"

fun similarityLoop ::
  "golib \<Rightarrow> float64 \<Rightarrow> tokenFreq \<Rightarrow> tokenFreq list \<Rightarrow> float64 \<Rightarrow> CheckResult" where
  "similarityLoop L threshold tokenizedMessage [] maxSimilarity =
     \<lparr>Name = ''similarity'', Spam = False,
      Details = sprintf_f2 L maxSimilarity @ ''/'' @ sprintf_f2 L threshold\<rparr>"
| "similarityLoop L threshold tokenizedMessage (spam # rest) maxSimilarity =
     (let similarity = cosineSimilarity tokenizedMessage spam;
          maxSimilarity = (if f64_gt similarity maxSimilarity then similarity else maxSimilarity)
      in if f64_ge similarity threshold
         then \<lparr>Name = ''similarity'', Spam = True,
               Details = sprintf_f2 L maxSimilarity @ ''/'' @ sprintf_f2 L threshold\<rparr>
         else similarityLoop L threshold tokenizedMessage rest maxSimilarity)"

definition isSpamSimilarityHigh :: "golib \<Rightarrow> Detector \<Rightarrow> string \<Rightarrow> CheckResult" where
  "isSpamSimilarityHigh L d msg =
     similarityLoop L (SimilarityThreshold (config d)) (tokenize L d msg) (tokenizedSpam d) (F64 0)"

definition isSpamClassified :: "golib \<Rightarrow> Detector \<Rightarrow> string \<Rightarrow> CheckResult" where
  "isSpamClassified L d msg =
     (let tm = tokenize L d msg;
          (class, prob, certain) = classify L (classifier d) (mapKeys tm);
          isSpam = (class = ''spam'' \<and> certain \<and>
                    (f64_eq (MinSpamProbability (config d)) (F64 0) \<or>
                     f64_ge prob (MinSpamProbability (config d))))
      in \<lparr>Name = ''classifier'', Spam = isSpam,
          Details = ''probability of '' @ class @ '': '' @ sprintf_f2 L prob @ ''%''\<rparr>)"

text \<open>A call of a method on a nil interface value panics, and so does the read of a
  field through a nil pointer. In \<^verbatim>\<open>isCasSpam\<close> that is \<^verbatim>\<open>d.HTTPClient.Do(req)\<close> when
  the client is nil, and \<^verbatim>\<open>defer resp.Body.Close()\<close> when \<^verbatim>\<open>Do\<close> returned a nil
  error with a nil response, or with a response whose \<^verbatim>\<open>Body\<close> is nil. When \<^verbatim>\<open>Do\<close>
  returns an error the response is not looked at.\<close>

datatype panic = NilPointerDereference

definition isCasSpam :: "golib \<Rightarrow> Detector \<Rightarrow> string \<Rightarrow> panic + CheckResult" where
  "isCasSpam L d msgID =
     (case ParseInt msgID of
        None \<Rightarrow>
          Inr \<lparr>Name = ''cas'', Spam = False, Details = ''invalid user id '' @ sprintf_q L msgID\<rparr>
      | Some _ \<Rightarrow>
          (let reqURL = CasAPI (config d) @ ''/check?user_id='' @ msgID
           in case NewRequest L reqURL of
                Some err \<Rightarrow>
                  Inr \<lparr>Name = ''cas'', Spam = False,
                       Details = ''failed to make request '' @ reqURL @ '': '' @ errorText err\<rparr>
              | None \<Rightarrow>
                  (case HTTPClient (config d) of
                     None \<Rightarrow> Inl NilPointerDereference
                   | Some client \<Rightarrow>
                       (case client reqURL of
                          (resp, Some err) \<Rightarrow>
                            Inr \<lparr>Name = ''cas'', Spam = False,
                                 Details = ''ffailed to send request '' @ reqURL @ '': '' @
                                           errorText err\<rparr>
                        | (None, None) \<Rightarrow> Inl NilPointerDereference
                        | (Some resp, None) \<Rightarrow>
                            (case Body resp of
                               None \<Rightarrow> Inl NilPointerDereference
                             | Some body \<Rightarrow>
                                 (case jsonDecode L body of
                                    Inl err \<Rightarrow>
                                      Inr \<lparr>Name = ''cas'', Spam = False,
                                           Details = ''failed to parse response from '' @ reqURL @
                                                     '': '' @ errorText err\<rparr>
                                  | Inr (ok, description) \<Rightarrow>
                                      (let description = TrimSuffix (ToLower L description) ''.''
                                       in if ok
                                          then Inr \<lparr>Name = ''cas'', Spam = True,
                                                    Details = description\<rparr>
                                          else Inr \<lparr>Name = ''cas'', Spam = False,
                                                    Details = (if description = []
                                                               then ''not found''
                                                               else description)\<rparr>)))))))"

subsection \<open>Check\<close>

text \<open>
  Beside the two results of \<^verbatim>\<open>Check\<close> the model returns the detector after the call
  and, for each element of \<open>cr\<close> in order, where it came from: which check was called
  to produce it, or which of the two literal results it is. A check is called exactly
  where its result is appended, so \<open>origins\<close> is also the list of the checks called.
\<close>

datatype origin =
  PreApproved | StopWordCheck | EmojiCheck | LengthGate
  | SimilarityCheck | ClassifierCheck | CasCheck | OpenAICheck

record CheckReturn =
  spam :: bool
  cr :: "CheckResult list"
  origins :: "origin list"
  detector :: Detector

type_synonym results = "CheckResult list \<times> origin list"

definition appendResult :: "origin \<Rightarrow> CheckResult \<Rightarrow> results \<Rightarrow> results" where
  "appendResult from r acc = (fst acc @ [r], snd acc @ [from])"

fun isSpamDetected :: "CheckResult list \<Rightarrow> bool" where
  "isSpamDetected [] = False"
| "isSpamDetected (r # rest) = (if Spam r then True else isSpamDetected rest)"

definition approvedCount :: "Detector \<Rightarrow> string \<Rightarrow> goint" where
  "approvedCount d userID = (case approvedUsers d userID of None \<Rightarrow> 0 | Some n \<Rightarrow> n)"

text \<open>The condition of the first \<^verbatim>\<open>if\<close> of \<^verbatim>\<open>Check\<close>.\<close>

definition preApproved :: "Detector \<Rightarrow> string \<Rightarrow> bool" where
  "preApproved d userID =
     (FirstMessageOnly (config d) \<and>
      sint (FirstMessagesCount (config d)) < sint (approvedCount d userID))"

text \<open>The stop-word and emoji checks, which run before the length gate.\<close>

definition firstChecks :: "golib \<Rightarrow> Detector \<Rightarrow> string \<Rightarrow> results" where
  "firstChecks L d msg =
     (let acc = ([], []);
          acc = (if length (stopWords d) > 0
                 then appendResult StopWordCheck (isStopWord L d msg) acc else acc);
          acc = (if 0 \<le> sint (MaxAllowedEmoji (config d))
                 then appendResult EmojiCheck (isManyEmojis L d msg) acc else acc)
      in acc)"

definition tooShort :: "golib \<Rightarrow> Detector \<Rightarrow> string \<Rightarrow> bool" where
  "tooShort L d msg = (int (runeCount L msg) < sint (MinMsgLen (config d)))"

text \<open>The similarity, classifier and CAS checks, which run after the length gate.\<close>

definition laterChecks ::
  "golib \<Rightarrow> Detector \<Rightarrow> string \<Rightarrow> string \<Rightarrow> results \<Rightarrow> panic + results" where
  "laterChecks L d msg userID acc0 =
     (let acc = acc0;
          acc = (if f64_gt (SimilarityThreshold (config d)) (F64 0) \<and> length (tokenizedSpam d) > 0
                 then appendResult SimilarityCheck (isSpamSimilarityHigh L d msg) acc else acc);
          acc = (if 0 < sint (nAllDocument (classifier d))
                 then appendResult ClassifierCheck (isSpamClassified L d msg) acc else acc)
      in if CasAPI (config d) \<noteq> []
         then (case isCasSpam L d userID of
                 Inl p \<Rightarrow> Inl p
               | Inr r \<Rightarrow> Inr (appendResult CasCheck r acc))
         else Inr acc)"

text \<open>Whether \<^verbatim>\<open>Check\<close> calls the OpenAI checker, given the verdict of the checks so
  far.\<close>

definition openaiConsulted :: "Detector \<Rightarrow> bool \<Rightarrow> bool" where
  "openaiConsulted d spamDetected =
     (openaiChecker d \<noteq> None \<and>
      (FirstMessageOnly (config d) \<or> 0 < sint (FirstMessagesCount (config d))) \<and>
      (\<not> spamDetected \<and> \<not> OpenAIVeto (config d) \<or> spamDetected \<and> OpenAIVeto (config d)))"

definition openaiStep :: "Detector \<Rightarrow> string \<Rightarrow> bool \<Rightarrow> results \<Rightarrow> bool \<times> results" where
  "openaiStep d msg spamDetected acc =
     (case openaiChecker d of
        None \<Rightarrow> (spamDetected, acc)
      | Some check \<Rightarrow>
          if FirstMessageOnly (config d) \<or> 0 < sint (FirstMessagesCount (config d))
          then (if \<not> spamDetected \<and> \<not> OpenAIVeto (config d) \<or> spamDetected \<and> OpenAIVeto (config d)
                then (let (spam, details) = check msg
                      in (spam, appendResult OpenAICheck details acc))
                else (spamDetected, acc))
          else (spamDetected, acc))"

definition incrApproved :: "Detector \<Rightarrow> string \<Rightarrow> Detector" where
  "incrApproved d userID =
     d\<lparr>approvedUsers := (approvedUsers d)(userID \<mapsto> approvedCount d userID + 1)\<rparr>"

definition Check :: "golib \<Rightarrow> Detector \<Rightarrow> string \<Rightarrow> string \<Rightarrow> panic + CheckReturn" where
  "Check L d msg userID =
     (if preApproved d userID
      then Inr \<lparr>spam = False,
                cr = [\<lparr>Name = ''pre-approved'', Spam = False, Details = ''user already approved''\<rparr>],
                origins = [PreApproved], detector = d\<rparr>
      else let acc = firstChecks L d msg
           in if tooShort L d msg
              then (let acc = appendResult LengthGate
                                \<lparr>Name = ''message length'', Spam = False, Details = ''too short''\<rparr> acc
                    in if isSpamDetected (fst acc)
                       then Inr \<lparr>spam = True, cr = fst acc, origins = snd acc, detector = d\<rparr>
                       else Inr \<lparr>spam = False, cr = fst acc, origins = snd acc, detector = d\<rparr>)
              else (case laterChecks L d msg userID acc of
                      Inl p \<Rightarrow> Inl p
                    | Inr acc \<Rightarrow>
                        (let spamDetected = isSpamDetected (fst acc);
                             (spamDetected, acc) = openaiStep d msg spamDetected acc
                         in if spamDetected
                            then Inr \<lparr>spam = True, cr = fst acc, origins = snd acc, detector = d\<rparr>
                            else if FirstMessageOnly (config d) \<or>
                                    0 < sint (FirstMessagesCount (config d))
                            then Inr \<lparr>spam = False, cr = fst acc, origins = snd acc,
                                      detector = incrApproved d userID\<rparr>
                            else Inr \<lparr>spam = False, cr = fst acc, origins = snd acc,
                                      detector = d\<rparr>)))"

subsection \<open>The other operations\<close>

definition NewDetector :: "Config \<Rightarrow> Detector" where
  "NewDetector p =
     (let res = \<lparr>config = p, classifier = newClassifier, openaiChecker = None,
                 tokenizedSpam = [], approvedUsers = Map.empty, stopWords = [],
                 excludedTokens = [], spamSamplesUpd = None, hamSamplesUpd = None\<rparr>
      in if 0 < sint (FirstMessagesCount p)
         then res\<lparr>config := (config res)\<lparr>FirstMessageOnly := True\<rparr>\<rparr>
         else res)"

definition Reset :: "Detector \<Rightarrow> Detector" where
  "Reset d =
     d\<lparr>tokenizedSpam := [], excludedTokens := [], classifier := reset (classifier d),
       approvedUsers := Map.empty, stopWords := []\<rparr>"

definition AddApprovedUsers :: "Detector \<Rightarrow> string list \<Rightarrow> Detector" where
  "AddApprovedUsers d ids =
     d\<lparr>approvedUsers :=
         fold (\<lambda>id m. m(id \<mapsto> FirstMessagesCount (config d) + 1)) ids (approvedUsers d)\<rparr>"

definition RemoveApprovedUsers :: "Detector \<Rightarrow> string list \<Rightarrow> Detector" where
  "RemoveApprovedUsers d ids =
     d\<lparr>approvedUsers := fold (\<lambda>id m. m(id := None)) ids (approvedUsers d)\<rparr>"

text \<open>\<^verbatim>\<open>LoadSamples\<close> and \<^verbatim>\<open>LoadStopWords\<close> return the load result, the error and the
  detector after the call. The readers are not nil.\<close>

definition loadExcluded :: "golib \<Rightarrow> string \<Rightarrow> Detector \<Rightarrow> Detector" where
  "loadExcluded L t d = d\<lparr>excludedTokens := excludedTokens d @ [ToLower L t]\<rparr>"

definition loadSpam ::
  "golib \<Rightarrow> string \<Rightarrow> Detector \<times> document list \<times> LoadResult
     \<Rightarrow> Detector \<times> document list \<times> LoadResult" where
  "loadSpam L token st =
     (case st of (d, docs, lr) \<Rightarrow>
        (let tf = tokenize L d token
         in (d\<lparr>tokenizedSpam := tokenizedSpam d @ [tf]\<rparr>,
             docs @ [\<lparr>spamClass = ''spam'', tokens = mapKeys tf\<rparr>],
             lr\<lparr>SpamSamples := SpamSamples lr + 1\<rparr>)))"

definition loadHam ::
  "golib \<Rightarrow> string \<Rightarrow> Detector \<times> document list \<times> LoadResult
     \<Rightarrow> Detector \<times> document list \<times> LoadResult" where
  "loadHam L token st =
     (case st of (d, docs, lr) \<Rightarrow>
        (let tf = tokenize L d token
         in (d, docs @ [\<lparr>spamClass = ''ham'', tokens = mapKeys tf\<rparr>],
             lr\<lparr>HamSamples := HamSamples lr + 1\<rparr>)))"

definition LoadSamples ::
  "golib \<Rightarrow> Detector \<Rightarrow> reader \<Rightarrow> reader list \<Rightarrow> reader list
     \<Rightarrow> LoadResult \<times> goerror option \<times> Detector" where
  "LoadSamples L d0 exclReader spamReaders hamReaders =
     (let d = d0\<lparr>tokenizedSpam := [], excludedTokens := [], classifier := reset (classifier d0)\<rparr>;
          d = fold (loadExcluded L) (tokenChan [exclReader]) d;
          lr = \<lparr>ExcludedTokens = of_nat (length (excludedTokens d)), SpamSamples = 0,
                HamSamples = 0, StopWords = 0\<rparr>;
          st = fold (loadSpam L) (tokenChan spamReaders) (d, [], lr);
          st = fold (loadHam L) (tokenChan hamReaders) st
      in case st of (d, docs, lr) \<Rightarrow>
           (lr, None, d\<lparr>classifier := learn (classifier d) docs\<rparr>))"

definition loadStopWord :: "golib \<Rightarrow> string \<Rightarrow> Detector \<Rightarrow> Detector" where
  "loadStopWord L t d = d\<lparr>stopWords := stopWords d @ [ToLower L t]\<rparr>"

definition LoadStopWords ::
  "golib \<Rightarrow> Detector \<Rightarrow> reader list \<Rightarrow> LoadResult \<times> goerror option \<times> Detector" where
  "LoadStopWords L d0 readers =
     (let d = d0\<lparr>stopWords := []\<rparr>;
          d = fold (loadStopWord L) (tokenChan readers) d
      in (\<lparr>ExcludedTokens = 0, SpamSamples = 0, HamSamples = 0,
           StopWords = of_nat (length (stopWords d))\<rparr>, None, d))"

text \<open>\<^verbatim>\<open>updateSample\<close> returns the error, the messages it passed to \<^verbatim>\<open>Append\<close>, and
  the detector after the call.\<close>

record UpdateReturn =
  updErr :: "goerror option"
  updAppended :: "string list"
  updDetector :: Detector

definition sampleDocs :: "golib \<Rightarrow> Detector \<Rightarrow> string \<Rightarrow> string \<Rightarrow> document list" where
  "sampleDocs L d msg sc =
     map (\<lambda>token. \<lparr>spamClass = sc, tokens = mapKeys (tokenize L d token)\<rparr>)
       (tokenChan [scanString L msg])"

definition updateSample ::
  "golib \<Rightarrow> Detector \<Rightarrow> string \<Rightarrow> SampleUpdater option \<Rightarrow> string \<Rightarrow> UpdateReturn" where
  "updateSample L d msg upd sc =
     (case upd of
        None \<Rightarrow> \<lparr>updErr = None, updAppended = [], updDetector = d\<rparr>
      | Some u \<Rightarrow>
          (case Append u msg of
             Some err \<Rightarrow>
               \<lparr>updErr = Some (Wrapped (''can'' @ [CHR 0x27] @ ''t update '' @ sc @ '' samples: '') err),
                updAppended = [msg], updDetector = d\<rparr>
           | None \<Rightarrow>
               \<lparr>updErr = None, updAppended = [msg],
                updDetector = d\<lparr>classifier := learn (classifier d) (sampleDocs L d msg sc)\<rparr>\<rparr>))"

definition UpdateSpam :: "golib \<Rightarrow> Detector \<Rightarrow> string \<Rightarrow> UpdateReturn" where
  "UpdateSpam L d msg = updateSample L d msg (spamSamplesUpd d) ''spam''"

definition UpdateHam :: "golib \<Rightarrow> Detector \<Rightarrow> string \<Rightarrow> UpdateReturn" where
  "UpdateHam L d msg = updateSample L d msg (hamSamplesUpd d) ''ham''"

subsection \<open>A library for ASCII text\<close>

text \<open>
  An instance of the library parameters on which the model can be run: lowercasing,
  folding and field splitting for ASCII text, in which there is no emoji; the
  classifier is undecided. The decoder reads the JSON objects that \<open>casBody\<close> writes,
  \<^verbatim>\<open>{"ok":true,"description":"D"}\<close> and \<^verbatim>\<open>{"ok":false,"description":"D"}\<close> for a
  text \<open>D\<close> of letters, digits, spaces and periods, on which it agrees with
  \<^verbatim>\<open>encoding/json\<close>; it refuses every other body, with the read error of the body if
  there is one.
\<close>

fun showNat :: "nat \<Rightarrow> string" where
  "showNat n =
     (if n < 10 then [''0123456789'' ! n]
      else showNat (n div 10) @ [''0123456789'' ! (n mod 10)])"

definition showInt :: "int \<Rightarrow> string" where
  "showInt i = (if i < 0 then ''-'' @ showNat (nat (- i)) else showNat (nat i))"

text \<open>\<^verbatim>\<open>%0.2f\<close> of a finite value: two decimals, rounded to nearest, ties to even.\<close>

definition showFixed2 :: "real \<Rightarrow> string" where
  "showFixed2 r =
     (let n = nat (roundHalfEven (\<bar>r\<bar> * 100))
      in (if r < 0 then ''-'' else []) @ showNat (n div 100) @ ''.'' @
         [''0123456789'' ! (n mod 100 div 10), ''0123456789'' ! (n mod 10)])"

definition asciiLower :: "string \<Rightarrow> string" where
  "asciiLower s =
     map (\<lambda>c. case map_of (zip ''ABCDEFGHIJKLMNOPQRSTUVWXYZ'' ''abcdefghijklmnopqrstuvwxyz'') c of
                None \<Rightarrow> c
              | Some l \<Rightarrow> l) s"

definition quoted :: "string \<Rightarrow> string" where
  "quoted s = [CHR 0x22] @ s @ [CHR 0x22]"

definition casBody :: "bool \<Rightarrow> string \<Rightarrow> string" where
  "casBody ok description =
     ''{'' @ quoted ''ok'' @ '':'' @ (if ok then ''true'' else ''false'') @ '','' @
     quoted ''description'' @ '':'' @ quoted description @ ''}''"

definition plainText :: "string \<Rightarrow> bool" where
  "plainText s =
     list_all (\<lambda>c. c \<in> set (''ABCDEFGHIJKLMNOPQRSTUVWXYZabcdefghijklmnopqrstuvwxyz'' @
                            ''0123456789 .'')) s"

definition asciiDecode :: "ReadCloser \<Rightarrow> goerror + (bool \<times> string)" where
  "asciiDecode body =
     (let s = readBytes body;
          t = take (length s - length (casBody True [])) (drop (length (casBody True []) - 2) s);
          f = take (length s - length (casBody False [])) (drop (length (casBody False []) - 2) s)
      in if s = casBody True t \<and> plainText t then Inr (True, t)
         else if s = casBody False f \<and> plainText f then Inr (False, f)
         else (case readErr body of
                 Some err \<Rightarrow> Inl err
               | None \<Rightarrow> Inl (ErrorString ''invalid character'')))"

definition undecided :: "classifier \<Rightarrow> string list \<Rightarrow> string \<times> float64 \<times> bool" where
  "undecided c ts = ([], F64 0, False)"

definition asciiLib :: golib where
  "asciiLib =
     \<lparr>ToLower = asciiLower,
      EqualFold = (\<lambda>s t. asciiLower s = asciiLower t),
      Fields = (\<lambda>s. filter (\<lambda>f. f \<noteq> []) (Split s CHR '' '')),
      runeCount = length,
      sprintf_q = quoted,
      sprintf_d = (\<lambda>i. showInt (sint i)),
      sprintf_f2 = (\<lambda>x. case x of F64 r \<Rightarrow> showFixed2 r | NaN \<Rightarrow> ''NaN''),
      NewRequest = (\<lambda>url. None),
      jsonDecode = asciiDecode,
      scanString = (\<lambda>s. \<lparr>scanLines = filter (\<lambda>l. l \<noteq> []) (Split s (CHR 0x0A)), scanErr = None\<rparr>),
      cleanEmoji = (\<lambda>s. s),
      countEmoji = (\<lambda>s. 0),
      classify = undecided\<rparr>"

subsection \<open>Example configurations\<close>

text \<open>\<^verbatim>\<open>WithOpenAIChecker\<close> attaches a checker; the model takes the checker's
  \<^verbatim>\<open>check\<close> method for the client and its configuration.\<close>

definition WithOpenAIChecker :: "Detector \<Rightarrow> (string \<Rightarrow> bool \<times> CheckResult) \<Rightarrow> Detector" where
  "WithOpenAIChecker d check = d\<lparr>openaiChecker := Some check\<rparr>"

definition exampleConfig :: Config where
  "exampleConfig =
     \<lparr>SimilarityThreshold = F64 (1 / 2), MinMsgLen = 5, MaxAllowedEmoji = 2, CasAPI = [],
      FirstMessageOnly = True, FirstMessagesCount = 0, HTTPClient = None,
      MinSpamProbability = F64 0, OpenAIVeto = False\<rparr>"

text \<open>An OpenAI checker that calls every message spam.\<close>

definition alwaysSpam :: "string \<Rightarrow> bool \<times> CheckResult" where
  "alwaysSpam msg = (True, \<lparr>Name = ''openai'', Spam = True, Details = ''spam''\<rparr>)"

text \<open>Clients of a CAS server: one whose server knows nobody, one whose server has
  banned everybody, and one whose server cannot be reached. Two more clients return a
  nil error without a body to read: \<open>casNoResponse\<close> with a nil response,
  \<open>casNoBody\<close> with a response whose \<^verbatim>\<open>Body\<close> is nil.\<close>

definition response :: "string \<Rightarrow> Response option \<times> goerror option" where
  "response s = (Some \<lparr>Body = Some \<lparr>readBytes = s, readErr = None\<rparr>\<rparr>, None)"

definition casUnknown :: HTTPClient where
  "casUnknown url = response (casBody False ''Record not found.'')"

definition casBanned :: HTTPClient where
  "casBanned url = response (casBody True ''User Is Banned.'')"

definition casDown :: HTTPClient where
  "casDown url = (None, Some (ErrorString ''connection refused''))"

definition casNoResponse :: HTTPClient where
  "casNoResponse url = (None, None)"

definition casNoBody :: HTTPClient where
  "casNoBody url = (Some \<lparr>Body = None\<rparr>, None)"

definition casConfig :: "HTTPClient option \<Rightarrow> Config" where
  "casConfig client = exampleConfig\<lparr>CasAPI := ''http://cas'', HTTPClient := client\<rparr>"

text \<open>Sample updaters: one that stores every message, one whose storage fails.\<close>

definition storingUpdater :: SampleUpdater where
  "storingUpdater = \<lparr>Append = (\<lambda>msg. None)\<rparr>"

definition failingUpdater :: SampleUpdater where
  "failingUpdater = \<lparr>Append = (\<lambda>msg. Some (ErrorString ''disk full''))\<rparr>"

section \<open>Properties\<close>

subsection \<open>Facts about the parts of Check\<close>

lemmas example_defs =
  exampleConfig_def NewDetector_def asciiLib_def newClassifier_def preApproved_def
  approvedCount_def tooShort_def firstChecks_def laterChecks_def appendResult_def
  isManyEmojis_def showInt_def openaiStep_def incrApproved_def AddApprovedUsers_def
  Reset_def reset_def alwaysSpam_def WithOpenAIChecker_def

lemma firstChecks_origins: "set (snd (firstChecks L d msg)) \<subseteq> {StopWordCheck, EmojiCheck}"
  by (auto simp: firstChecks_def appendResult_def Let_def)

lemma firstChecks_length:
  "length (fst (firstChecks L d msg)) = length (snd (firstChecks L d msg))"
  by (auto simp: firstChecks_def appendResult_def Let_def)

lemma isSpamDetected_iff: "isSpamDetected rs \<longleftrightarrow> (\<exists>r \<in> set rs. Spam r)"
  by (induction rs) auto

lemma laterChecks_origins:
  "laterChecks L d msg u acc = Inr acc' \<Longrightarrow>
   \<exists>ys. snd acc' = snd acc @ ys \<and> set ys \<subseteq> {SimilarityCheck, ClassifierCheck, CasCheck} \<and>
        length (fst acc') = length (fst acc) + length ys"
  by (auto simp: laterChecks_def appendResult_def Let_def split: if_splits sum.splits)

lemma openaiStep_consulted:
  "openaiConsulted d sd \<Longrightarrow> openaiChecker d = Some check \<Longrightarrow>
   openaiStep d msg sd acc = (fst (check msg), fst acc @ [snd (check msg)], snd acc @ [OpenAICheck])"
  by (auto simp: openaiStep_def openaiConsulted_def appendResult_def split: prod.splits)

lemma openaiStep_not_consulted:
  "\<not> openaiConsulted d sd \<Longrightarrow> openaiStep d msg sd acc = (sd, acc)"
  by (auto simp: openaiStep_def openaiConsulted_def split: option.splits)

text \<open>What \<open>Check\<close> returns on each of its three paths.\<close>

lemma Check_preApproved:
  "preApproved d userID \<Longrightarrow>
   Check L d msg userID =
     Inr \<lparr>spam = False,
          cr = [\<lparr>Name = ''pre-approved'', Spam = False, Details = ''user already approved''\<rparr>],
          origins = [PreApproved], detector = d\<rparr>"
  by (simp add: Check_def)

lemma Check_tooShort:
  "\<not> preApproved d userID \<Longrightarrow> tooShort L d msg \<Longrightarrow>
   Check L d msg userID =
     Inr \<lparr>spam = isSpamDetected (fst (firstChecks L d msg)),
          cr = fst (firstChecks L d msg) @
                 [\<lparr>Name = ''message length'', Spam = False, Details = ''too short''\<rparr>],
          origins = snd (firstChecks L d msg) @ [LengthGate], detector = d\<rparr>"
  by (simp add: Check_def Let_def appendResult_def isSpamDetected_iff)

lemma Check_panics:
  "\<not> preApproved d userID \<Longrightarrow> \<not> tooShort L d msg \<Longrightarrow>
   laterChecks L d msg userID (firstChecks L d msg) = Inl p \<Longrightarrow> Check L d msg userID = Inl p"
  by (simp add: Check_def Let_def)

lemma Check_aggregate:
  assumes "\<not> preApproved d userID" "\<not> tooShort L d msg"
      and "laterChecks L d msg userID (firstChecks L d msg) = Inr acc"
  shows "Check L d msg userID =
     Inr \<lparr>spam = fst (openaiStep d msg (isSpamDetected (fst acc)) acc),
          cr = fst (snd (openaiStep d msg (isSpamDetected (fst acc)) acc)),
          origins = snd (snd (openaiStep d msg (isSpamDetected (fst acc)) acc)),
          detector = (if \<not> fst (openaiStep d msg (isSpamDetected (fst acc)) acc) \<and>
                         (FirstMessageOnly (config d) \<or> 0 < sint (FirstMessagesCount (config d)))
                      then incrApproved d userID else d)\<rparr>"
  using assms by (simp add: Check_def Let_def split: prod.splits)

lemma sint_succ:
  assumes "(x :: 64 word) \<noteq> 0x7FFFFFFFFFFFFFFF"
  shows "sint (x + 1) = sint x + 1"
proof -
  have m: "sint (0x7FFFFFFFFFFFFFFF :: 64 word) = 9223372036854775807" by simp
  have "sint x \<noteq> 9223372036854775807"
    using assms m by (metis signed_word_eqI)
  moreover have "sint x < 2 ^ 63" using sint_lt[of x] by simp
  moreover have "- (2 ^ 63) \<le> sint x" using sint_ge[of x] by simp
  ultimately have r: "- (2 ^ 63) \<le> sint x + 1" "sint x + 1 < 2 ^ 63" by simp_all
  have "sint (x + 1) = signed_take_bit 63 (sint x + 1)"
    by (simp add: sint_word_ariths)
  also have "\<dots> = sint x + 1"
    using r by (simp add: signed_take_bit_int_eq_self)
  finally show ?thesis .
qed

lemma fold_upd_in:
  "u \<in> set ids \<Longrightarrow> fold (\<lambda>id m. m(id \<mapsto> v)) ids m0 u = Some v"
  by (induction ids arbitrary: m0 rule: rev_induct) auto

subsection \<open>C1: the counter of approved users\<close>

text \<open>
  C1, as amended. With \<^verbatim>\<open>FirstMessageOnly\<close> set or \<^verbatim>\<open>FirstMessagesCount > 0\<close>, a call
  \<^verbatim>\<open>Check(msg, u)\<close> that returns leaves the detector as it was when its verdict is spam,
  when it returns through the pre-approval shortcut, and when it returns through the
  length gate (whatever the verdict there). In every other case, which is a ham verdict
  of the aggregation step, it stores \<^verbatim>\<open>approvedUsers[u] + 1\<close> (a 64-bit sum) under
  \<open>u\<close> and changes nothing else.
\<close>

theorem Check_approved_counter:
  assumes "FirstMessageOnly (config d) \<or> 0 < sint (FirstMessagesCount (config d))"
      and "Check L d msg userID = Inr out"
  shows "if spam out \<or> preApproved d userID \<or>
            int (runeCount L msg) < sint (MinMsgLen (config d))
         then detector out = d
         else detector out =
                d\<lparr>approvedUsers := (approvedUsers d)(userID \<mapsto> approvedCount d userID + 1)\<rparr> \<and>
              approvedCount (detector out) userID = approvedCount d userID + 1"
proof (cases "preApproved d userID")
  case True
  then show ?thesis using assms(2) by (auto simp: Check_preApproved)
next
  case np: False
  show ?thesis
  proof (cases "tooShort L d msg")
    case True
    have short: "int (runeCount L msg) < sint (MinMsgLen (config d))"
      using True by (simp add: tooShort_def)
    show ?thesis using assms(2) short
      by (auto simp: Check_tooShort[OF np True])
  next
    case ns: False
    show ?thesis
    proof (cases "laterChecks L d msg userID (firstChecks L d msg)")
      case (Inl p)
      then show ?thesis using assms(2) np ns by (simp add: Check_panics)
    next
      case (Inr acc)
      have "int (runeCount L msg) < sint (MinMsgLen (config d)) \<longleftrightarrow> False"
        using ns by (simp add: tooShort_def)
      then show ?thesis
        using assms np Check_aggregate[OF np ns Inr]
        by (auto simp: incrApproved_def approvedCount_def)
    qed
  qed
qed

text \<open>A first message that passes every check: the counter of user 7 goes from 0 to 1.\<close>

theorem Check_approved_counter_witness:
  "(FirstMessageOnly (config (NewDetector exampleConfig)) \<or>
      0 < sint (FirstMessagesCount (config (NewDetector exampleConfig)))) \<and>
   Check asciiLib (NewDetector exampleConfig) ''hello world'' ''7'' =
     Inr \<lparr>spam = False, cr = [\<lparr>Name = ''emoji'', Spam = False, Details = ''0/2''\<rparr>],
          origins = [EmojiCheck], detector = incrApproved (NewDetector exampleConfig) ''7''\<rparr> \<and>
   approvedCount (NewDetector exampleConfig) ''7'' = 0 \<and>
   approvedCount (incrApproved (NewDetector exampleConfig) ''7'') ''7'' = 1"
proof -
  have fm: "FirstMessageOnly (config (NewDetector exampleConfig)) \<or>
      0 < sint (FirstMessagesCount (config (NewDetector exampleConfig)))"
    by (simp add: example_defs)
  have c: "Check asciiLib (NewDetector exampleConfig) ''hello world'' ''7'' =
     Inr \<lparr>spam = False, cr = [\<lparr>Name = ''emoji'', Spam = False, Details = ''0/2''\<rparr>],
          origins = [EmojiCheck], detector = incrApproved (NewDetector exampleConfig) ''7''\<rparr>"
    by (simp add: Check_def example_defs)
  have z: "approvedCount (NewDetector exampleConfig) ''7'' = 0"
    by (simp add: example_defs)
  have "\<not> preApproved (NewDetector exampleConfig) ''7''"
       "\<not> int (runeCount asciiLib ''hello world'') <
          sint (MinMsgLen (config (NewDetector exampleConfig)))"
    by (simp_all add: example_defs)
  with Check_approved_counter[OF fm c] z
  have "approvedCount (incrApproved (NewDetector exampleConfig) ''7'') ''7'' = 1"
    by (simp add: approvedCount_def)
  with fm c z show ?thesis by simp
qed

text \<open>
  C1 as stated fails: with \<^verbatim>\<open>FirstMessageOnly\<close> set and \<^verbatim>\<open>MinMsgLen = 5\<close>, the message
  \<open>hi\<close> of a new user returns ham through the length gate and the detector, with the
  user's counter, is unchanged.
\<close>

theorem Check_length_gate_not_counted:
  "FirstMessageOnly (config (NewDetector exampleConfig)) \<and>
   Check asciiLib (NewDetector exampleConfig) ''hi'' ''7'' =
     Inr \<lparr>spam = False,
          cr = [\<lparr>Name = ''emoji'', Spam = False, Details = ''0/2''\<rparr>,
                \<lparr>Name = ''message length'', Spam = False, Details = ''too short''\<rparr>],
          origins = [EmojiCheck, LengthGate], detector = NewDetector exampleConfig\<rparr> \<and>
   approvedCount (NewDetector exampleConfig) ''7'' \<noteq>
     approvedCount (NewDetector exampleConfig) ''7'' + 1"
  by (simp add: Check_def example_defs)

subsection \<open>C2: Check right after Reset\<close>

lemmas cas_defs =
  isCasSpam_def casConfig_def casUnknown_def casBanned_def casDown_def casNoResponse_def
  casNoBody_def response_def asciiDecode_def casBody_def quoted_def plainText_def
  Trim_def TrimSuffix_def asciiLower_def ParseInt_def isDigit_def digitsValue_def

text \<open>
  C2, as amended. A call of \<^verbatim>\<open>Check\<close> right after \<^verbatim>\<open>Reset\<close> that returns gives a
  result list in which every result comes from the emoji check, the length gate, the
  reputation check (only when \<^verbatim>\<open>CasAPI\<close> is set), the OpenAI check (only when a checker
  is attached and \<^verbatim>\<open>FirstMessageOnly\<close> or \<^verbatim>\<open>FirstMessagesCount > 0\<close> holds), or is the
  pre-approved result (only when \<^verbatim>\<open>FirstMessageOnly\<close> is set and \<^verbatim>\<open>FirstMessagesCount\<close>
  is negative). No result comes from the stop-word, similarity or classifier check.
\<close>

theorem Check_after_Reset:
  assumes "Check L (Reset d) msg userID = Inr out"
  shows "set (origins out) \<subseteq> {PreApproved, EmojiCheck, LengthGate, CasCheck, OpenAICheck} \<and>
         length (cr out) = length (origins out) \<and>
         (PreApproved \<in> set (origins out) \<longrightarrow>
            FirstMessageOnly (config d) \<and> sint (FirstMessagesCount (config d)) < 0) \<and>
         (CasCheck \<in> set (origins out) \<longrightarrow> CasAPI (config d) \<noteq> []) \<and>
         (OpenAICheck \<in> set (origins out) \<longrightarrow>
            openaiChecker d \<noteq> None \<and>
            (FirstMessageOnly (config d) \<or> 0 < sint (FirstMessagesCount (config d))))"
proof -
  let ?r = "Reset d"
  have fc: "firstChecks L ?r msg =
      (if 0 \<le> sint (MaxAllowedEmoji (config d))
       then ([isManyEmojis L ?r msg], [EmojiCheck]) else ([], []))"
    by (simp add: firstChecks_def Reset_def appendResult_def)
  have lc: "laterChecks L ?r msg userID acc =
      (if CasAPI (config d) \<noteq> []
       then (case isCasSpam L ?r userID of
               Inl p \<Rightarrow> Inl p
             | Inr r \<Rightarrow> Inr (appendResult CasCheck r acc))
       else Inr acc)" for acc
    by (simp add: laterChecks_def Reset_def reset_def newClassifier_def)
  have cfg: "config ?r = config d" "openaiChecker ?r = openaiChecker d"
    by (simp_all add: Reset_def)
  show ?thesis
  proof (cases "preApproved ?r userID")
    case True
    then have "FirstMessageOnly (config d) \<and> sint (FirstMessagesCount (config d)) < 0"
      by (simp add: preApproved_def approvedCount_def Reset_def)
    then show ?thesis using assms True by (auto simp: Check_preApproved)
  next
    case np: False
    show ?thesis
    proof (cases "tooShort L ?r msg")
      case True
      show ?thesis using assms by (auto simp: Check_tooShort[OF np True] fc split: if_splits)
    next
      case ns: False
      show ?thesis
      proof (cases "laterChecks L ?r msg userID (firstChecks L ?r msg)")
        case (Inl p)
        then show ?thesis using assms np ns by (simp add: Check_panics)
      next
        case (Inr acc)
        have acc: "set (snd acc) \<subseteq> {EmojiCheck, CasCheck}"
             "length (fst acc) = length (snd acc)"
             "CasCheck \<in> set (snd acc) \<Longrightarrow> CasAPI (config d) \<noteq> []"
          using Inr by (auto simp: lc fc appendResult_def split: if_splits sum.splits)
        show ?thesis
        proof (cases "openaiConsulted ?r (isSpamDetected (fst acc))")
          case True
          then obtain check where c: "openaiChecker ?r = Some check"
            by (auto simp: openaiConsulted_def)
          have "openaiChecker d \<noteq> None \<and>
               (FirstMessageOnly (config d) \<or> 0 < sint (FirstMessagesCount (config d)))"
            using True by (auto simp: openaiConsulted_def cfg)
          then show ?thesis
            using assms acc
            by (auto simp: Check_aggregate[OF np ns Inr] openaiStep_consulted[OF True c])
        next
          case False
          show ?thesis
            using assms acc
            by (auto simp: Check_aggregate[OF np ns Inr] openaiStep_not_consulted[OF False])
        qed
      qed
    qed
  qed
qed

text \<open>After \<^verbatim>\<open>Reset\<close>, with \<^verbatim>\<open>CasAPI\<close> set: the emoji and the reputation check run.\<close>

theorem Check_after_Reset_witness:
  "Check asciiLib (Reset (NewDetector (casConfig (Some casUnknown)))) ''hello world'' ''7'' =
     Inr \<lparr>spam = False,
          cr = [\<lparr>Name = ''emoji'', Spam = False, Details = ''0/2''\<rparr>,
                \<lparr>Name = ''cas'', Spam = False, Details = ''record not found''\<rparr>],
          origins = [EmojiCheck, CasCheck],
          detector = incrApproved (Reset (NewDetector (casConfig (Some casUnknown)))) ''7''\<rparr> \<and>
   set [EmojiCheck, CasCheck] \<subseteq> {PreApproved, EmojiCheck, LengthGate, CasCheck, OpenAICheck} \<and>
   CasAPI (config (NewDetector (casConfig (Some casUnknown)))) \<noteq> []"
proof -
  have c: "Check asciiLib (Reset (NewDetector (casConfig (Some casUnknown)))) ''hello world'' ''7'' =
     Inr \<lparr>spam = False,
          cr = [\<lparr>Name = ''emoji'', Spam = False, Details = ''0/2''\<rparr>,
                \<lparr>Name = ''cas'', Spam = False, Details = ''record not found''\<rparr>],
          origins = [EmojiCheck, CasCheck],
          detector = incrApproved (Reset (NewDetector (casConfig (Some casUnknown)))) ''7''\<rparr>"
    by (simp add: Check_def cas_defs example_defs)
  from Check_after_Reset[OF c] c show ?thesis by simp
qed

text \<open>
  C2 as stated fails: with an OpenAI checker attached and \<^verbatim>\<open>FirstMessageOnly\<close> set,
  \<^verbatim>\<open>Check\<close> right after \<^verbatim>\<open>Reset\<close> returns the checker's result, which comes from none of
  the stop-word and emoji checks, the length gate and the reputation check.
\<close>

theorem Check_after_Reset_openai:
  "Check asciiLib (Reset (WithOpenAIChecker (NewDetector exampleConfig) alwaysSpam))
     ''hello world'' ''7'' =
     Inr \<lparr>spam = True,
          cr = [\<lparr>Name = ''emoji'', Spam = False, Details = ''0/2''\<rparr>,
                \<lparr>Name = ''openai'', Spam = True, Details = ''spam''\<rparr>],
          origins = [EmojiCheck, OpenAICheck],
          detector = Reset (WithOpenAIChecker (NewDetector exampleConfig) alwaysSpam)\<rparr> \<and>
   \<not> set [EmojiCheck, OpenAICheck] \<subseteq> {StopWordCheck, EmojiCheck, LengthGate, CasCheck}"
  by (simp add: Check_def example_defs)

subsection \<open>C3: approved users are not checked\<close>

lemma AddApprovedUsers_count:
  "userID \<in> set ids \<Longrightarrow>
   approvedCount (AddApprovedUsers d ids) userID = FirstMessagesCount (config d) + 1"
  by (simp add: approvedCount_def AddApprovedUsers_def fold_upd_in)

lemma NewDetector_FirstMessageOnly:
  "FirstMessageOnly (config (NewDetector p)) \<longleftrightarrow>
   FirstMessageOnly p \<or> 0 < sint (FirstMessagesCount p)"
  by (simp add: NewDetector_def Let_def)

lemma NewDetector_FirstMessagesCount:
  "FirstMessagesCount (config (NewDetector p)) = FirstMessagesCount p"
  by (simp add: NewDetector_def Let_def)

text \<open>
  C3, as amended. If \<^verbatim>\<open>FirstMessageOnly\<close> is set and \<^verbatim>\<open>FirstMessagesCount\<close> is not the
  largest \<^verbatim>\<open>int\<close>, \<open>2^63 - 1\<close>, then after \<^verbatim>\<open>AddApprovedUsers\<close> with \<open>u\<close> among its
  arguments, \<^verbatim>\<open>Check(msg, u)\<close> returns \<^verbatim>\<open>false\<close> and the single result named
  \<open>pre-approved\<close>, runs no check and leaves the detector as it is. A detector made by
  \<^verbatim>\<open>NewDetector\<close> has \<^verbatim>\<open>FirstMessageOnly\<close> set when the configuration sets it or has
  \<^verbatim>\<open>FirstMessagesCount > 0\<close>.
\<close>

theorem Check_after_AddApprovedUsers:
  assumes "d = NewDetector p \<and> (FirstMessageOnly p \<or> 0 < sint (FirstMessagesCount p)) \<or>
           FirstMessageOnly (config d)"
      and "FirstMessagesCount (config d) \<noteq> 0x7FFFFFFFFFFFFFFF"
      and "userID \<in> set ids"
  shows "Check L (AddApprovedUsers d ids) msg userID =
           Inr \<lparr>spam = False,
                cr = [\<lparr>Name = ''pre-approved'', Spam = False,
                       Details = ''user already approved''\<rparr>],
                origins = [PreApproved], detector = AddApprovedUsers d ids\<rparr>"
proof -
  have fm: "FirstMessageOnly (config d)"
    using assms(1) by (auto simp: NewDetector_FirstMessageOnly)
  have "sint (FirstMessagesCount (config d)) < sint (FirstMessagesCount (config d) + 1)"
    using sint_succ[OF assms(2)] by simp
  then have "preApproved (AddApprovedUsers d ids) userID"
    using fm assms(3)
    by (simp add: preApproved_def AddApprovedUsers_count) (simp add: AddApprovedUsers_def)
  then show ?thesis by (rule Check_preApproved)
qed

text \<open>A configuration with \<^verbatim>\<open>FirstMessagesCount = 3\<close> and \<^verbatim>\<open>FirstMessageOnly\<close> not set.\<close>

theorem Check_after_AddApprovedUsers_witness:
  "\<not> FirstMessageOnly (exampleConfig\<lparr>FirstMessageOnly := False, FirstMessagesCount := 3\<rparr>) \<and>
   Check asciiLib
     (AddApprovedUsers
        (NewDetector (exampleConfig\<lparr>FirstMessageOnly := False, FirstMessagesCount := 3\<rparr>))
        [''7'', ''8''])
     ''buy now'' ''8'' =
     Inr \<lparr>spam = False,
          cr = [\<lparr>Name = ''pre-approved'', Spam = False, Details = ''user already approved''\<rparr>],
          origins = [PreApproved],
          detector =
            AddApprovedUsers
              (NewDetector (exampleConfig\<lparr>FirstMessageOnly := False, FirstMessagesCount := 3\<rparr>))
              [''7'', ''8'']\<rparr>"
proof -
  let ?p = "exampleConfig\<lparr>FirstMessageOnly := False, FirstMessagesCount := 3\<rparr>"
  have a: "NewDetector ?p = NewDetector ?p \<and>
           (FirstMessageOnly ?p \<or> 0 < sint (FirstMessagesCount ?p)) \<or>
           FirstMessageOnly (config (NewDetector ?p))"
    by (simp add: exampleConfig_def)
  have b: "FirstMessagesCount (config (NewDetector ?p)) \<noteq> 0x7FFFFFFFFFFFFFFF"
    by (simp add: NewDetector_FirstMessagesCount exampleConfig_def)
  have c: "''8'' \<in> set [''7'', ''8'']" by simp
  have "\<not> FirstMessageOnly ?p" by (simp add: exampleConfig_def)
  with Check_after_AddApprovedUsers[OF a b c, of asciiLib "''buy now''"] show ?thesis
    by simp
qed

text \<open>
  C3 as stated fails for \<^verbatim>\<open>FirstMessagesCount = 2^63 - 1\<close>: \<^verbatim>\<open>AddApprovedUsers\<close> stores
  \<^verbatim>\<open>FirstMessagesCount + 1\<close>, which wraps to \<open>- 2^63\<close>, and the next \<^verbatim>\<open>Check\<close> of the user
  runs the checks.
\<close>

theorem Check_after_AddApprovedUsers_overflow:
  "FirstMessageOnly (config (NewDetector (exampleConfig\<lparr>FirstMessagesCount := 0x7FFFFFFFFFFFFFFF\<rparr>))) \<and>
   0 \<le> sint (FirstMessagesCount (exampleConfig\<lparr>FirstMessagesCount := 0x7FFFFFFFFFFFFFFF\<rparr>)) \<and>
   approvedCount
     (AddApprovedUsers (NewDetector (exampleConfig\<lparr>FirstMessagesCount := 0x7FFFFFFFFFFFFFFF\<rparr>)) [''7''])
     ''7'' = 0x8000000000000000 \<and>
   Check asciiLib
     (AddApprovedUsers (NewDetector (exampleConfig\<lparr>FirstMessagesCount := 0x7FFFFFFFFFFFFFFF\<rparr>)) [''7''])
     ''hello world'' ''7'' =
     Inr \<lparr>spam = False, cr = [\<lparr>Name = ''emoji'', Spam = False, Details = ''0/2''\<rparr>],
          origins = [EmojiCheck],
          detector =
            incrApproved
              (AddApprovedUsers
                 (NewDetector (exampleConfig\<lparr>FirstMessagesCount := 0x7FFFFFFFFFFFFFFF\<rparr>)) [''7''])
              ''7''\<rparr>"
  by (simp add: Check_def example_defs)

subsection \<open>C4: the length gate\<close>

text \<open>
  C4, as amended. For every message with fewer than \<^verbatim>\<open>MinMsgLen\<close> code points and every
  user who is not pre-approved, \<^verbatim>\<open>Check\<close> returns the results of the stop-word and emoji
  checks (those of the two that are enabled, in this order) followed by the result
  \<open>message length\<close>, ham, \<open>too short\<close>; it calls no other check, its verdict is spam
  exactly when one of the earlier results is spam, and the detector is unchanged.
\<close>

theorem Check_length_gate:
  assumes "int (runeCount L msg) < sint (MinMsgLen (config d))"
      and "\<not> preApproved d userID"
  shows "Check L d msg userID =
           Inr \<lparr>spam = (\<exists>r \<in> set (fst (firstChecks L d msg)). Spam r),
                cr = fst (firstChecks L d msg) @
                       [\<lparr>Name = ''message length'', Spam = False, Details = ''too short''\<rparr>],
                origins = snd (firstChecks L d msg) @ [LengthGate],
                detector = d\<rparr> \<and>
         set (snd (firstChecks L d msg)) \<subseteq> {StopWordCheck, EmojiCheck} \<and>
         length (fst (firstChecks L d msg)) = length (snd (firstChecks L d msg))"
  using assms firstChecks_origins[of L d msg] firstChecks_length[of L d msg]
  by (simp add: Check_tooShort tooShort_def isSpamDetected_iff)

text \<open>A short message that contains a stop word: spam, by the stop-word check alone.\<close>

theorem Check_length_gate_witness:
  "int (runeCount asciiLib ''Buy'') <
     sint (MinMsgLen (config ((NewDetector exampleConfig)\<lparr>stopWords := [''buy'']\<rparr>))) \<and>
   \<not> preApproved ((NewDetector exampleConfig)\<lparr>stopWords := [''buy'']\<rparr>) ''7'' \<and>
   Check asciiLib ((NewDetector exampleConfig)\<lparr>stopWords := [''buy'']\<rparr>) ''Buy'' ''7'' =
     Inr \<lparr>spam = True,
          cr = [\<lparr>Name = ''stopword'', Spam = True, Details = ''buy''\<rparr>,
                \<lparr>Name = ''emoji'', Spam = False, Details = ''0/2''\<rparr>,
                \<lparr>Name = ''message length'', Spam = False, Details = ''too short''\<rparr>],
          origins = [StopWordCheck, EmojiCheck, LengthGate],
          detector = (NewDetector exampleConfig)\<lparr>stopWords := [''buy'']\<rparr>\<rparr>"
proof -
  let ?d = "(NewDetector exampleConfig)\<lparr>stopWords := [''buy'']\<rparr>"
  have a: "int (runeCount asciiLib ''Buy'') < sint (MinMsgLen (config ?d))"
    by (simp add: example_defs)
  have b: "\<not> preApproved ?d ''7''"
    by (simp add: example_defs)
  have f: "firstChecks asciiLib ?d ''Buy'' =
     ([\<lparr>Name = ''stopword'', Spam = True, Details = ''buy''\<rparr>,
       \<lparr>Name = ''emoji'', Spam = False, Details = ''0/2''\<rparr>], [StopWordCheck, EmojiCheck])"
    by (simp add: example_defs isStopWord_def asciiLower_def)
  from Check_length_gate[OF a b] a b show ?thesis
    by (simp add: f)
qed

text \<open>
  C4 as stated fails for a pre-approved user: the short message \<open>hi\<close> of an approved
  user returns the pre-approved result alone, and no \<open>message length\<close> result.
\<close>

theorem Check_length_gate_preApproved:
  "int (runeCount asciiLib ''hi'') <
     sint (MinMsgLen (config (AddApprovedUsers (NewDetector exampleConfig) [''7'']))) \<and>
   Check asciiLib (AddApprovedUsers (NewDetector exampleConfig) [''7'']) ''hi'' ''7'' =
     Inr \<lparr>spam = False,
          cr = [\<lparr>Name = ''pre-approved'', Spam = False, Details = ''user already approved''\<rparr>],
          origins = [PreApproved],
          detector = AddApprovedUsers (NewDetector exampleConfig) [''7'']\<rparr>"
  by (simp add: Check_def example_defs)

subsection \<open>C5: when the OpenAI checker is consulted\<close>

text \<open>
  C5. Take a call of \<^verbatim>\<open>Check\<close> that reaches the aggregation step: the user is not
  pre-approved, the message is not shorter than \<^verbatim>\<open>MinMsgLen\<close>, and the checks before
  the step have returned the results \<open>fst acc\<close>, whose verdict is
  \<open>isSpamDetected (fst acc)\<close>. Then \<^verbatim>\<open>Check\<close> returns, and it has called the OpenAI
  checker if and only if a checker is attached, \<^verbatim>\<open>FirstMessageOnly\<close> or
  \<^verbatim>\<open>FirstMessagesCount > 0\<close> holds, and either the verdict is ham and \<^verbatim>\<open>OpenAIVeto\<close> is
  false or the verdict is spam and \<^verbatim>\<open>OpenAIVeto\<close> is true. When called, the checker's
  result is appended and its verdict is the verdict of \<^verbatim>\<open>Check\<close>; otherwise the
  verdict of the earlier checks stands.
\<close>

theorem Check_openai_gating:
  assumes "\<not> preApproved d userID"
      and "\<not> int (runeCount L msg) < sint (MinMsgLen (config d))"
      and "laterChecks L d msg userID (firstChecks L d msg) = Inr acc"
  shows "\<exists>out. Check L d msg userID = Inr out \<and>
           (OpenAICheck \<in> set (origins out) \<longleftrightarrow>
              openaiChecker d \<noteq> None \<and>
              (FirstMessageOnly (config d) \<or> 0 < sint (FirstMessagesCount (config d))) \<and>
              (\<not> isSpamDetected (fst acc) \<and> \<not> OpenAIVeto (config d) \<or>
               isSpamDetected (fst acc) \<and> OpenAIVeto (config d))) \<and>
           (if OpenAICheck \<in> set (origins out)
            then \<exists>check. openaiChecker d = Some check \<and> spam out = fst (check msg) \<and>
                   cr out = fst acc @ [snd (check msg)] \<and>
                   origins out = snd acc @ [OpenAICheck]
            else spam out = isSpamDetected (fst acc) \<and> cr out = fst acc \<and>
                 origins out = snd acc)"
proof -
  have ts: "\<not> tooShort L d msg" using assms(2) by (simp add: tooShort_def)
  obtain ys where ys: "snd acc = snd (firstChecks L d msg) @ ys"
      "set ys \<subseteq> {SimilarityCheck, ClassifierCheck, CasCheck}"
    using laterChecks_origins[OF assms(3)] by auto
  have notin: "OpenAICheck \<notin> set (snd acc)"
    using ys firstChecks_origins[of L d msg] by auto
  show ?thesis
  proof (cases "openaiConsulted d (isSpamDetected (fst acc))")
    case True
    then obtain check where c: "openaiChecker d = Some check"
      by (auto simp: openaiConsulted_def)
    show ?thesis
      using True c notin
      by (simp add: Check_aggregate[OF assms(1) ts assms(3)] openaiStep_consulted[OF True c])
         (simp add: openaiConsulted_def)
  next
    case False
    show ?thesis
      using False notin
      by (simp add: Check_aggregate[OF assms(1) ts assms(3)] openaiStep_not_consulted[OF False])
         (simp add: openaiConsulted_def)
  qed
qed

text \<open>The checks find nothing, \<^verbatim>\<open>OpenAIVeto\<close> is false, and the checker says spam.\<close>

theorem Check_openai_gating_witness:
  "\<not> preApproved (WithOpenAIChecker (NewDetector exampleConfig) alwaysSpam) ''7'' \<and>
   \<not> int (runeCount asciiLib ''hello world'') <
       sint (MinMsgLen (config (WithOpenAIChecker (NewDetector exampleConfig) alwaysSpam))) \<and>
   laterChecks asciiLib (WithOpenAIChecker (NewDetector exampleConfig) alwaysSpam)
     ''hello world'' ''7''
     (firstChecks asciiLib (WithOpenAIChecker (NewDetector exampleConfig) alwaysSpam) ''hello world'') =
     Inr ([\<lparr>Name = ''emoji'', Spam = False, Details = ''0/2''\<rparr>], [EmojiCheck]) \<and>
   (\<exists>out. Check asciiLib (WithOpenAIChecker (NewDetector exampleConfig) alwaysSpam)
            ''hello world'' ''7'' = Inr out \<and>
          OpenAICheck \<in> set (origins out) \<and> spam out \<and>
          cr out = [\<lparr>Name = ''emoji'', Spam = False, Details = ''0/2''\<rparr>,
                    \<lparr>Name = ''openai'', Spam = True, Details = ''spam''\<rparr>])"
proof -
  let ?d = "WithOpenAIChecker (NewDetector exampleConfig) alwaysSpam"
  have a: "\<not> preApproved ?d ''7''"
    by (simp add: example_defs)
  have b: "\<not> int (runeCount asciiLib ''hello world'') < sint (MinMsgLen (config ?d))"
    by (simp add: example_defs)
  have c: "laterChecks asciiLib ?d ''hello world'' ''7'' (firstChecks asciiLib ?d ''hello world'') =
     Inr ([\<lparr>Name = ''emoji'', Spam = False, Details = ''0/2''\<rparr>], [EmojiCheck])"
    by (simp add: example_defs)
  have o: "openaiChecker ?d = Some alwaysSpam" "\<not> OpenAIVeto (config ?d)"
          "FirstMessageOnly (config ?d)"
    by (simp_all add: example_defs)
  from Check_openai_gating[OF a b c] obtain out where
    out: "Check asciiLib ?d ''hello world'' ''7'' = Inr out"
      "OpenAICheck \<in> set (origins out) \<longleftrightarrow>
         openaiChecker ?d \<noteq> None \<and>
         (FirstMessageOnly (config ?d) \<or> 0 < sint (FirstMessagesCount (config ?d))) \<and>
         (\<not> isSpamDetected (fst ([\<lparr>Name = ''emoji'', Spam = False, Details = ''0/2''\<rparr>], [EmojiCheck])) \<and>
            \<not> OpenAIVeto (config ?d) \<or>
          isSpamDetected (fst ([\<lparr>Name = ''emoji'', Spam = False, Details = ''0/2''\<rparr>], [EmojiCheck])) \<and>
            OpenAIVeto (config ?d))"
      "if OpenAICheck \<in> set (origins out)
       then \<exists>check. openaiChecker ?d = Some check \<and> spam out = fst (check ''hello world'') \<and>
              cr out = fst ([\<lparr>Name = ''emoji'', Spam = False, Details = ''0/2''\<rparr>], [EmojiCheck]) @
                         [snd (check ''hello world'')] \<and>
              origins out = snd ([\<lparr>Name = ''emoji'', Spam = False, Details = ''0/2''\<rparr>], [EmojiCheck]) @
                              [OpenAICheck]
       else spam out = isSpamDetected (fst ([\<lparr>Name = ''emoji'', Spam = False, Details = ''0/2''\<rparr>], [EmojiCheck])) \<and>
            cr out = fst ([\<lparr>Name = ''emoji'', Spam = False, Details = ''0/2''\<rparr>], [EmojiCheck]) \<and>
            origins out = snd ([\<lparr>Name = ''emoji'', Spam = False, Details = ''0/2''\<rparr>], [EmojiCheck])"
    by blast
  have in1: "OpenAICheck \<in> set (origins out)"
    using out(2) o by simp
  have "spam out \<and> cr out = [\<lparr>Name = ''emoji'', Spam = False, Details = ''0/2''\<rparr>,
                    \<lparr>Name = ''openai'', Spam = True, Details = ''spam''\<rparr>]"
    using out(3) in1 o by (auto simp: alwaysSpam_def)
  with a b c out(1) in1 show ?thesis by blast
qed

subsection \<open>C6: the reputation check\<close>

text \<open>\<^verbatim>\<open>isCasSpam\<close> panics in three cases and no other, all of them after the user id
  was parsed and the request made: the client is nil; the client returns a nil error
  with a nil response; the client returns a nil error with a response whose body is
  nil.\<close>

lemma isCasSpam_panics_iff:
  "isCasSpam L d msgID = Inl p \<longleftrightarrow>
     ParseInt msgID \<noteq> None \<and>
     NewRequest L (CasAPI (config d) @ ''/check?user_id='' @ msgID) = None \<and>
     (case HTTPClient (config d) of
        None \<Rightarrow> True
      | Some client \<Rightarrow>
          (case client (CasAPI (config d) @ ''/check?user_id='' @ msgID) of
             (resp, Some err) \<Rightarrow> False
           | (None, None) \<Rightarrow> True
           | (Some resp, None) \<Rightarrow> Body resp = None))"
  by (cases p) (auto simp: isCasSpam_def Let_def split: option.splits sum.splits prod.splits)

text \<open>
  C6, as amended. Provided an HTTP client is set in the configuration and, when it
  answers the request with a nil error, its response is not nil and has a body that
  is not nil, \<^verbatim>\<open>isCasSpam\<close> returns a result named \<open>cas\<close> and does not panic. For a
  user id that \<^verbatim>\<open>strconv.ParseInt\<close> rejects the result is ham with the detail
  \<open>invalid user id\<close> and the quoted id; when the request cannot be made, the client
  returns an error or the body cannot be decoded, the result is ham with a detail that
  names the request and the error; for a decoded response the result is spam exactly
  when \<open>ok\<close> is true, and the detail is the description, lowercased and without one
  trailing period, with \<open>not found\<close> in its place when the result is ham and that is
  empty.
\<close>

theorem isCasSpam_total:
  assumes "HTTPClient (config d) = Some client"
      and "\<forall>resp. client (CasAPI (config d) @ ''/check?user_id='' @ msgID) = (resp, None) \<longrightarrow>
                  (\<exists>r body. resp = Some r \<and> Body r = Some body)"
  shows "\<exists>r. isCasSpam L d msgID = Inr r \<and> Name r = ''cas'' \<and>
           (ParseInt msgID = None \<longrightarrow>
              \<not> Spam r \<and> Details r = ''invalid user id '' @ sprintf_q L msgID) \<and>
           (\<forall>reqURL. ParseInt msgID \<noteq> None \<and>
                     reqURL = CasAPI (config d) @ ''/check?user_id='' @ msgID \<longrightarrow>
              (\<forall>err. NewRequest L reqURL = Some err \<longrightarrow>
                 \<not> Spam r \<and>
                 Details r = ''failed to make request '' @ reqURL @ '': '' @ errorText err) \<and>
              (\<forall>resp err. NewRequest L reqURL = None \<and> client reqURL = (resp, Some err) \<longrightarrow>
                 \<not> Spam r \<and>
                 Details r = ''ffailed to send request '' @ reqURL @ '': '' @ errorText err) \<and>
              (\<forall>resp body err.
                 NewRequest L reqURL = None \<and> client reqURL = (Some resp, None) \<and>
                 Body resp = Some body \<and> jsonDecode L body = Inl err \<longrightarrow>
                 \<not> Spam r \<and>
                 Details r = ''failed to parse response from '' @ reqURL @ '': '' @ errorText err) \<and>
              (\<forall>resp body ok description.
                 NewRequest L reqURL = None \<and> client reqURL = (Some resp, None) \<and>
                 Body resp = Some body \<and> jsonDecode L body = Inr (ok, description) \<longrightarrow>
                 Spam r = ok \<and>
                 Details r =
                   (if \<not> ok \<and> TrimSuffix (ToLower L description) ''.'' = [] then ''not found''
                    else TrimSuffix (ToLower L description) ''.'')))"
proof -
  let ?url = "CasAPI (config d) @ ''/check?user_id='' @ msgID"
  obtain resp err where c: "client ?url = (resp, err)"
    by (cases "client ?url") auto
  show ?thesis
  proof (cases err)
    case (Some e)
    show ?thesis
      using assms(1) c Some
      by (auto simp: isCasSpam_def Let_def split: option.splits sum.splits)
  next
    case None
    with assms(2) c obtain r body where r: "resp = Some r" "Body r = Some body"
      by blast
    show ?thesis
      using assms(1) c None r
      by (auto simp: isCasSpam_def Let_def split: option.splits sum.splits)
  qed
qed

text \<open>A server that answers \<open>ok: true\<close> with the description \<open>User Is Banned.\<close>, asked
  about the ids \<open>7\<close> and \<open>7x\<close>, and a server that cannot be reached.\<close>

theorem isCasSpam_total_witness:
  "HTTPClient (config (NewDetector (casConfig (Some casBanned)))) = Some casBanned \<and>
   casBanned ''http://cas/check?user_id=7'' =
     (Some \<lparr>Body = Some \<lparr>readBytes = casBody True ''User Is Banned.'', readErr = None\<rparr>\<rparr>, None) \<and>
   isCasSpam asciiLib (NewDetector (casConfig (Some casBanned))) ''7'' =
     Inr \<lparr>Name = ''cas'', Spam = True, Details = ''user is banned''\<rparr> \<and>
   isCasSpam asciiLib (NewDetector (casConfig (Some casBanned))) ''7x'' =
     Inr \<lparr>Name = ''cas'', Spam = False,
          Details = ''invalid user id '' @ [CHR 0x22] @ ''7x'' @ [CHR 0x22]\<rparr> \<and>
   casDown ''http://cas/check?user_id=7'' = (None, Some (ErrorString ''connection refused'')) \<and>
   isCasSpam asciiLib (NewDetector (casConfig (Some casDown))) ''7'' =
     Inr \<lparr>Name = ''cas'', Spam = False,
          Details = ''ffailed to send request http://cas/check?user_id=7: connection refused''\<rparr>"
proof -
  let ?d = "NewDetector (casConfig (Some casBanned))"
  let ?e = "NewDetector (casConfig (Some casDown))"
  have a: "HTTPClient (config ?d) = Some casBanned" "HTTPClient (config ?e) = Some casDown"
    by (simp_all add: casConfig_def example_defs)
  have h: "\<forall>resp. casBanned (CasAPI (config ?d) @ ''/check?user_id='' @ i) = (resp, None) \<longrightarrow>
                  (\<exists>r body. resp = Some r \<and> Body r = Some body)"
          "\<forall>resp. casDown (CasAPI (config ?e) @ ''/check?user_id='' @ i) = (resp, None) \<longrightarrow>
                  (\<exists>r body. resp = Some r \<and> Body r = Some body)" for i
    by (simp_all add: casBanned_def casDown_def response_def)
  have p: "ParseInt ''7'' = Some 7" "ParseInt ''7x'' = None"
    by (simp_all add: ParseInt_def isDigit_def digitsValue_def)
  have u: "CasAPI (config ?d) @ ''/check?user_id='' @ ''7'' = ''http://cas/check?user_id=7''"
          "CasAPI (config ?e) @ ''/check?user_id='' @ ''7'' = ''http://cas/check?user_id=7''"
    by (simp_all add: casConfig_def example_defs)
  have b: "casBanned ''http://cas/check?user_id=7'' =
             (Some \<lparr>Body = Some \<lparr>readBytes = casBody True ''User Is Banned.'', readErr = None\<rparr>\<rparr>, None)"
          "casDown ''http://cas/check?user_id=7'' = (None, Some (ErrorString ''connection refused''))"
    by (simp_all add: casBanned_def casDown_def response_def)
  have e: "NewRequest asciiLib ''http://cas/check?user_id=7'' = None"
          "jsonDecode asciiLib \<lparr>readBytes = casBody True ''User Is Banned.'', readErr = None\<rparr> =
             Inr (True, ''User Is Banned.'')"
          "TrimSuffix (ToLower asciiLib ''User Is Banned.'') ''.'' = ''user is banned''"
    by (simp_all add: cas_defs asciiLib_def)
  from isCasSpam_total[OF a(1) h(1)[of "''7''"], of asciiLib] obtain r where
    r: "isCasSpam asciiLib ?d ''7'' = Inr r" "Name r = ''cas''" "Spam r = True"
       "Details r = ''user is banned''"
    using p u b e by fastforce
  from isCasSpam_total[OF a(1) h(1)[of "''7x''"], of asciiLib] obtain r' where
    r': "isCasSpam asciiLib ?d ''7x'' = Inr r'" "Name r' = ''cas''" "\<not> Spam r'"
        "Details r' = ''invalid user id '' @ sprintf_q asciiLib ''7x''"
    using p by auto
  from isCasSpam_total[OF a(2) h(2)[of "''7''"], of asciiLib] obtain r'' where
    r'': "isCasSpam asciiLib ?e ''7'' = Inr r''" "Name r'' = ''cas''" "\<not> Spam r''"
         "Details r'' = ''ffailed to send request '' @ ''http://cas/check?user_id=7'' @ '': '' @
                        errorText (ErrorString ''connection refused'')"
    using p u b e by fastforce
  have "r = \<lparr>Name = ''cas'', Spam = True, Details = ''user is banned''\<rparr>"
    using r by simp
  moreover have "r' = \<lparr>Name = ''cas'', Spam = False,
                        Details = ''invalid user id '' @ [CHR 0x22] @ ''7x'' @ [CHR 0x22]\<rparr>"
    using r' by (simp add: asciiLib_def quoted_def)
  moreover have "r'' = \<lparr>Name = ''cas'', Spam = False,
      Details = ''ffailed to send request http://cas/check?user_id=7: connection refused''\<rparr>"
    using r'' by simp
  ultimately show ?thesis using a b r(1) r'(1) r''(1) by simp
qed

text \<open>
  C6 as stated fails: a detector whose configuration sets \<^verbatim>\<open>CasAPI\<close> and leaves
  \<^verbatim>\<open>HTTPClient\<close> nil panics in \<^verbatim>\<open>isCasSpam\<close>, at the call \<^verbatim>\<open>d.HTTPClient.Do(req)\<close>, for
  a well-formed user id, and so does \<^verbatim>\<open>Check\<close>. With a client that returns a nil
  error and a nil response, or a response whose body is nil, \<^verbatim>\<open>isCasSpam\<close> panics at
  \<^verbatim>\<open>resp.Body.Close\<close>.
\<close>

theorem isCasSpam_nil_client:
  "isCasSpam asciiLib (NewDetector (casConfig None)) ''7'' = Inl NilPointerDereference \<and>
   Check asciiLib (NewDetector (casConfig None)) ''hello world'' ''7'' = Inl NilPointerDereference \<and>
   isCasSpam asciiLib (NewDetector (casConfig (Some casNoResponse))) ''7'' =
     Inl NilPointerDereference \<and>
   isCasSpam asciiLib (NewDetector (casConfig (Some casNoBody))) ''7'' =
     Inl NilPointerDereference"
  by (simp add: Check_def cas_defs example_defs)

subsection \<open>C7: UpdateSpam and UpdateHam\<close>

lemma updateSample_cases:
  "updateSample L d msg upd sc =
     (case upd of
        None \<Rightarrow> \<lparr>updErr = None, updAppended = [], updDetector = d\<rparr>
      | Some u \<Rightarrow>
          (case Append u msg of
             Some err \<Rightarrow>
               \<lparr>updErr = Some (Wrapped (''can'' @ [CHR 0x27] @ ''t update '' @ sc @ '' samples: '') err),
                updAppended = [msg], updDetector = d\<rparr>
           | None \<Rightarrow>
               \<lparr>updErr = None, updAppended = [msg],
                updDetector = d\<lparr>classifier := learn (classifier d) (sampleDocs L d msg sc)\<rparr>\<rparr>))"
  by (simp add: updateSample_def)

text \<open>
  C7. \<^verbatim>\<open>UpdateSpam\<close> and \<^verbatim>\<open>UpdateHam\<close>, for every message: when the updater is not set
  they return nil, call nothing and leave the detector as it is; when the updater's
  \<^verbatim>\<open>Append(msg)\<close> returns an error they return the error wrapped under
  \<open>can't update spam samples\<close> (or \<open>ham\<close>) and leave the detector, with its classifier,
  as it is; when \<^verbatim>\<open>Append(msg)\<close> succeeds they return nil and the classifier has
  learned the documents of the message, and nothing else of the detector changes. In
  the last two cases \<^verbatim>\<open>Append\<close> was called once, with the message.
\<close>

theorem Update_sample:
  "(spamSamplesUpd d = None \<longrightarrow>
      UpdateSpam L d msg = \<lparr>updErr = None, updAppended = [], updDetector = d\<rparr>) \<and>
   (hamSamplesUpd d = None \<longrightarrow>
      UpdateHam L d msg = \<lparr>updErr = None, updAppended = [], updDetector = d\<rparr>) \<and>
   (\<forall>u err. spamSamplesUpd d = Some u \<and> Append u msg = Some err \<longrightarrow>
      UpdateSpam L d msg =
        \<lparr>updErr = Some (Wrapped (''can'' @ [CHR 0x27] @ ''t update spam samples: '') err),
         updAppended = [msg], updDetector = d\<rparr> \<and>
      classifier (updDetector (UpdateSpam L d msg)) = classifier d) \<and>
   (\<forall>u err. hamSamplesUpd d = Some u \<and> Append u msg = Some err \<longrightarrow>
      UpdateHam L d msg =
        \<lparr>updErr = Some (Wrapped (''can'' @ [CHR 0x27] @ ''t update ham samples: '') err),
         updAppended = [msg], updDetector = d\<rparr> \<and>
      classifier (updDetector (UpdateHam L d msg)) = classifier d) \<and>
   (\<forall>u. spamSamplesUpd d = Some u \<and> Append u msg = None \<longrightarrow>
      UpdateSpam L d msg =
        \<lparr>updErr = None, updAppended = [msg],
         updDetector = d\<lparr>classifier := learn (classifier d) (sampleDocs L d msg ''spam'')\<rparr>\<rparr>) \<and>
   (\<forall>u. hamSamplesUpd d = Some u \<and> Append u msg = None \<longrightarrow>
      UpdateHam L d msg =
        \<lparr>updErr = None, updAppended = [msg],
         updDetector = d\<lparr>classifier := learn (classifier d) (sampleDocs L d msg ''ham'')\<rparr>\<rparr>)"
  by (simp add: UpdateSpam_def UpdateHam_def updateSample_cases)

lemmas tokenize_defs =
  sampleDocs_def tokenChan_def lineTokens_def tokenize_def mapIncr_def mapKeys_def
  Trim_def asciiLower_def learn_def learnDoc_def learnToken_def

text \<open>A detector without updaters, one whose spam storage fails, and one whose spam
  storage works: only the last learns, one document.\<close>

theorem Update_sample_witness:
  "UpdateSpam asciiLib (NewDetector exampleConfig) ''buy cheap pills'' =
     \<lparr>updErr = None, updAppended = [], updDetector = NewDetector exampleConfig\<rparr> \<and>
   UpdateSpam asciiLib ((NewDetector exampleConfig)\<lparr>spamSamplesUpd := Some failingUpdater\<rparr>)
       ''buy cheap pills'' =
     \<lparr>updErr = Some (Wrapped (''can'' @ [CHR 0x27] @ ''t update spam samples: '')
                       (ErrorString ''disk full'')),
      updAppended = [''buy cheap pills''],
      updDetector = (NewDetector exampleConfig)\<lparr>spamSamplesUpd := Some failingUpdater\<rparr>\<rparr> \<and>
   updErr (UpdateSpam asciiLib ((NewDetector exampleConfig)\<lparr>spamSamplesUpd := Some storingUpdater\<rparr>)
             ''buy cheap pills'') = None \<and>
   nAllDocument (classifier (updDetector
     (UpdateSpam asciiLib ((NewDetector exampleConfig)\<lparr>spamSamplesUpd := Some storingUpdater\<rparr>)
        ''buy cheap pills''))) = 1 \<and>
   vocabulary (classifier (updDetector
     (UpdateSpam asciiLib ((NewDetector exampleConfig)\<lparr>spamSamplesUpd := Some storingUpdater\<rparr>)
        ''buy cheap pills''))) = {''buy'', ''cheap'', ''pills''}"
proof -
  let ?d = "NewDetector exampleConfig"
  let ?f = "?d\<lparr>spamSamplesUpd := Some failingUpdater\<rparr>"
  let ?s = "?d\<lparr>spamSamplesUpd := Some storingUpdater\<rparr>"
  have n: "spamSamplesUpd ?d = None" by (simp add: example_defs)
  have f: "spamSamplesUpd ?f = Some failingUpdater \<and>
           Append failingUpdater ''buy cheap pills'' = Some (ErrorString ''disk full'')"
    by (simp add: failingUpdater_def example_defs)
  have s: "spamSamplesUpd ?s = Some storingUpdater \<and> Append storingUpdater ''buy cheap pills'' = None"
    by (simp add: storingUpdater_def example_defs)
  have docs: "sampleDocs asciiLib ?s ''buy cheap pills'' ''spam'' =
      [\<lparr>spamClass = ''spam'', tokens = [''buy'', ''cheap'', ''pills'']\<rparr>]"
    by (simp add: tokenize_defs example_defs)
  have l: "nAllDocument (learn (classifier ?s)
              [\<lparr>spamClass = ''spam'', tokens = [''buy'', ''cheap'', ''pills'']\<rparr>]) = 1"
          "vocabulary (learn (classifier ?s)
              [\<lparr>spamClass = ''spam'', tokens = [''buy'', ''cheap'', ''pills'']\<rparr>]) =
             {''buy'', ''cheap'', ''pills''}"
    by (auto simp: tokenize_defs example_defs)
  from Update_sample[of ?d asciiLib "''buy cheap pills''"] n
  have 1: "UpdateSpam asciiLib ?d ''buy cheap pills'' =
     \<lparr>updErr = None, updAppended = [], updDetector = ?d\<rparr>"
    by blast
  from Update_sample[of ?f asciiLib "''buy cheap pills''"] f
  have 2: "UpdateSpam asciiLib ?f ''buy cheap pills'' =
     \<lparr>updErr = Some (Wrapped (''can'' @ [CHR 0x27] @ ''t update spam samples: '')
                       (ErrorString ''disk full'')),
      updAppended = [''buy cheap pills''], updDetector = ?f\<rparr>"
    by blast
  from Update_sample[of ?s asciiLib "''buy cheap pills''"] s
  have 3: "UpdateSpam asciiLib ?s ''buy cheap pills'' =
        \<lparr>updErr = None, updAppended = [''buy cheap pills''],
         updDetector = ?s\<lparr>classifier := learn (classifier ?s)
                            (sampleDocs asciiLib ?s ''buy cheap pills'' ''spam'')\<rparr>\<rparr>"
    by blast
  show ?thesis
    unfolding 1 2 3 docs using l by simp
qed

subsection \<open>C10: what LoadSamples and LoadStopWords leave alone\<close>

lemma fold_loadExcluded_frame:
  "stopWords (fold (loadExcluded L) ts d) = stopWords d \<and>
   approvedUsers (fold (loadExcluded L) ts d) = approvedUsers d"
  by (induction ts arbitrary: d) (simp_all add: loadExcluded_def)

lemma fold_loadSpam_frame:
  "stopWords (fst (fold (loadSpam L) ts st)) = stopWords (fst st) \<and>
   approvedUsers (fst (fold (loadSpam L) ts st)) = approvedUsers (fst st)"
  by (induction ts arbitrary: st) (simp_all add: loadSpam_def Let_def split: prod.splits)

lemma fold_loadHam_frame: "fst (fold (loadHam L) ts st) = fst st"
  by (induction ts arbitrary: st) (simp_all add: loadHam_def Let_def split: prod.splits)

text \<open>
  C10. For every detector, excluded-token reader and lists of spam and ham readers,
  whatever errors the readers end with, \<^verbatim>\<open>LoadSamples\<close> leaves the stop words and the
  approved users as they are and returns a nil error, and what it returns does not
  depend on the spam samples, excluded tokens and classifier the detector held
  before; \<^verbatim>\<open>LoadStopWords\<close> returns a nil error as well.
\<close>

theorem Load_frame:
  "stopWords (snd (snd (LoadSamples L d exclReader spamReaders hamReaders))) = stopWords d \<and>
   approvedUsers (snd (snd (LoadSamples L d exclReader spamReaders hamReaders))) =
     approvedUsers d \<and>
   fst (snd (LoadSamples L d exclReader spamReaders hamReaders)) = None \<and>
   LoadSamples L (d\<lparr>tokenizedSpam := samples, excludedTokens := excluded, classifier := c\<rparr>)
       exclReader spamReaders hamReaders =
     LoadSamples L d exclReader spamReaders hamReaders \<and>
   fst (snd (LoadStopWords L d readers)) = None"
proof -
  let ?d1 = "fold (loadExcluded L) (tokenChan [exclReader])
               (d\<lparr>tokenizedSpam := [], excludedTokens := [], classifier := reset (classifier d)\<rparr>)"
  let ?lr = "\<lparr>ExcludedTokens = of_nat (length (excludedTokens ?d1)), SpamSamples = 0,
              HamSamples = 0, StopWords = 0\<rparr>"
  let ?st = "fold (loadHam L) (tokenChan hamReaders)
               (fold (loadSpam L) (tokenChan spamReaders) (?d1, [], ?lr))"
  have ls: "LoadSamples L d exclReader spamReaders hamReaders =
      (case ?st of (d', docs, lr) \<Rightarrow> (lr, None, d'\<lparr>classifier := learn (classifier d') docs\<rparr>))"
    by (simp add: LoadSamples_def Let_def)
  have fr: "stopWords (fst ?st) = stopWords d" "approvedUsers (fst ?st) = approvedUsers d"
    by (simp_all add: fold_loadHam_frame fold_loadSpam_frame fold_loadExcluded_frame)
  obtain d' docs lr where st: "?st = (d', docs, lr)"
    by (cases ?st)
  have a: "stopWords (snd (snd (LoadSamples L d exclReader spamReaders hamReaders))) = stopWords d"
          "approvedUsers (snd (snd (LoadSamples L d exclReader spamReaders hamReaders))) =
             approvedUsers d"
          "fst (snd (LoadSamples L d exclReader spamReaders hamReaders)) = None"
    using fr unfolding ls st by simp_all
  have b: "LoadSamples L (d\<lparr>tokenizedSpam := samples, excludedTokens := excluded, classifier := c\<rparr>)
       exclReader spamReaders hamReaders =
     LoadSamples L d exclReader spamReaders hamReaders"
    by (simp add: LoadSamples_def reset_def)
  have c: "fst (snd (LoadStopWords L d readers)) = None"
    by (simp add: LoadStopWords_def Let_def)
  from a b c show ?thesis by simp
qed

subsection \<open>Rounding to binary64\<close>

text \<open>Rounding to binary64: powers of two, the rounding of the significand, and the
  relative error of \<open>rnd\<close>, which is at most \<open>2^-53\<close>.\<close>

lemma pow2_powr: "pow2 e = 2 powr (of_int e)"
proof (cases "0 \<le> e")
  case True
  then show ?thesis by (simp add: pow2_def powr_realpow[symmetric])
next
  case False
  then have "2 powr (of_int e) = 1 / (2::real) powr (of_int (- e))"
    by (simp add: powr_minus_divide)
  also have "\<dots> = 1 / 2 ^ nat (- e)"
    using False by (simp add: powr_realpow[symmetric])
  finally show ?thesis using False by (simp add: pow2_def)
qed

lemma pow2_pos: "0 < pow2 e"
  by (simp add: pow2_powr)

lemma pow2_add: "pow2 (a + b) = pow2 a * pow2 b"
  by (simp add: pow2_powr powr_add)

lemma pow2_0: "pow2 0 = 1"
  by (simp add: pow2_def)

lemma roundHalfEven_err: "\<bar>of_int (roundHalfEven y) - y\<bar> \<le> 1 / 2"
  unfolding roundHalfEven_def Let_def
  by (auto simp: abs_le_iff)

lemma roundHalfEven_eq:
  assumes "of_int m - 1 / 2 < y" "y < of_int m + 1 / 2"
  shows "roundHalfEven y = m"
proof -
  have "\<lfloor>y\<rfloor> = m \<or> \<lfloor>y\<rfloor> = m - 1"
    using assms by linarith
  then show ?thesis
  proof
    assume f: "\<lfloor>y\<rfloor> = m"
    then have "y - of_int m < 1 / 2" using assms by linarith
    then show ?thesis using f by (simp add: roundHalfEven_def)
  next
    assume f: "\<lfloor>y\<rfloor> = m - 1"
    then have "1 / 2 < y - of_int (m - 1)" using assms by simp
    then show ?thesis using f by (simp add: roundHalfEven_def Let_def)
  qed
qed

lemma floor_log2:
  assumes "0 < x" "pow2 e \<le> x" "x < pow2 (e + 1)"
  shows "\<lfloor>log 2 x\<rfloor> = e"
  using assms by (simp add: floor_log_eq_powr_iff pow2_powr)

lemma rnd_eval:
  assumes "0 < x" "pow2 e \<le> x" "x < pow2 (e + 1)"
      and "of_int m - 1 / 2 < x * pow2 (52 - e)" "x * pow2 (52 - e) < of_int m + 1 / 2"
  shows "rnd x = of_int m * pow2 (e - 52)"
  using assms by (simp add: rnd_def floor_log2 roundHalfEven_eq)

lemma rnd_error:
  assumes "0 < x"
  shows "\<bar>rnd x - x\<bar> \<le> x / 2 ^ 53"
proof -
  define e where "e = \<lfloor>log 2 x\<rfloor>"
  define y where "y = x * pow2 (52 - e)"
  have e: "pow2 e \<le> x"
    using assms floor_log_eq_powr_iff[of x 2 e] by (simp add: e_def pow2_powr)
  have inv: "pow2 (52 - e) * pow2 (e - 52) = 1"
    using pow2_add[of "52 - e" "e - 52"] by (simp add: pow2_0)
  have x: "x = y * pow2 (e - 52)"
    using inv by (simp add: y_def mult.assoc)
  have r: "rnd x = of_int (roundHalfEven y) * pow2 (e - 52)"
    using assms by (simp add: rnd_def e_def y_def Let_def)
  have "rnd x - x = of_int (roundHalfEven y) * pow2 (e - 52) - y * pow2 (e - 52)"
    unfolding r by (subst x) (rule refl)
  also have "\<dots> = (of_int (roundHalfEven y) - y) * pow2 (e - 52)"
    by (simp add: left_diff_distrib)
  finally have "\<bar>rnd x - x\<bar> = \<bar>of_int (roundHalfEven y) - y\<bar> * pow2 (e - 52)"
    using pow2_pos[of "e - 52"] by (simp add: abs_mult)
  also have "\<dots> \<le> 1 / 2 * pow2 (e - 52)"
    using roundHalfEven_err[of y] pow2_pos[of "e - 52"] by (simp add: mult_right_mono)
  also have "\<dots> = pow2 e / 2 ^ 53"
    using pow2_add[of e "- 53"] pow2_add[of "e - 52" "-1"] by (simp add: pow2_def)
  also have "\<dots> \<le> x / 2 ^ 53"
    using e by (simp add: divide_right_mono)
  finally show ?thesis .
qed


lemma rnd_2: "rnd 2 = 2"
  using rnd_eval[of 2 1 "2 ^ 52"] by (simp add: pow2_def)

lemma sqrt2_scaled: "0 \<le> b \<Longrightarrow> sqrt 2 * b = sqrt (2 * b\<^sup>2)"
  by (simp add: real_sqrt_mult)

lemma sqrt2_bounds:
  "6369051672525773 - 1 / 2 < sqrt 2 * 2 ^ 52" "sqrt 2 * 2 ^ 52 < 6369051672525773 + 1 / 2"
proof -
  have s: "sqrt 2 * 2 ^ 52 = sqrt (2 * (2 ^ 52)\<^sup>2)"
    by (rule sqrt2_scaled) simp
  have "(6369051672525773 - 1 / 2)\<^sup>2 < (2 * (2 ^ 52)\<^sup>2 :: real)"
    by (simp add: power2_eq_square)
  then show "6369051672525773 - 1 / 2 < sqrt 2 * 2 ^ 52"
    unfolding s by (rule real_less_rsqrt)
  have "(2 * (2 ^ 52)\<^sup>2 :: real) < (6369051672525773 + 1 / 2)\<^sup>2"
    by (simp add: power2_eq_square)
  then show "sqrt 2 * 2 ^ 52 < 6369051672525773 + 1 / 2"
    unfolding s by (intro real_less_lsqrt) simp_all
qed

lemma rnd_sqrt2: "rnd (sqrt 2) = 6369051672525773 * pow2 (- 52)"
proof -
  have "pow2 0 \<le> sqrt 2" by (simp add: pow2_def)
  moreover have "sqrt 2 < 2" by (rule real_less_lsqrt) simp_all
  then have "sqrt 2 < pow2 (0 + 1)" by (simp add: pow2_def)
  moreover have "of_int 6369051672525773 - 1 / 2 < sqrt 2 * pow2 (52 - 0)"
      "sqrt 2 * pow2 (52 - 0) < of_int 6369051672525773 + 1 / 2"
    using sqrt2_bounds by (simp_all add: pow2_def)
  ultimately show ?thesis
    using rnd_eval[of "sqrt 2" 0 6369051672525773] by simp
qed

lemma rnd_rel:
  assumes "0 < x"
  shows "x * (1 - 1 / 2 ^ 53) \<le> rnd x" "rnd x \<le> x * (1 + 1 / 2 ^ 53)"
proof -
  have a: "x * (1 - 1 / 2 ^ 53) = x - x / 2 ^ 53" "x * (1 + 1 / 2 ^ 53) = x + x / 2 ^ 53"
    by (simp_all add: algebra_simps)
  have "rnd x - x \<le> x / 2 ^ 53" "x - rnd x \<le> x / 2 ^ 53"
    using rnd_error[OF assms] by linarith+
  then show "x * (1 - 1 / 2 ^ 53) \<le> rnd x" "rnd x \<le> x * (1 + 1 / 2 ^ 53)"
    unfolding a by linarith+
qed

lemma rnd_pos: "0 < x \<Longrightarrow> 0 < rnd x"
proof -
  assume x: "0 < x"
  have "0 < x * (1 - 1 / 2 ^ 53)" using x by simp
  then show ?thesis using rnd_rel(1)[OF x] by linarith
qed

lemma self_similarity_bound:
  assumes N: "0 < N"
  defines "r \<equiv> rnd (sqrt N)"
  defines "p \<equiv> rnd (r * r)"
  shows "0 < p" "\<bar>rnd (N / p) - 1\<bar> \<le> 1 / 2 ^ 50"
proof -
  define u :: real where "u = 1 / 2 ^ 53"
  have u: "0 < u" "u < 1" by (simp_all add: u_def)
  let ?s = "sqrt N"
  have s: "0 < ?s" using N by simp
  have ss: "?s * ?s = N" using N by simp
  have r: "?s * (1 - u) \<le> r" "r \<le> ?s * (1 + u)"
    using rnd_rel[OF s] by (simp_all add: r_def u_def)
  have r0: "0 < r" unfolding r_def by (rule rnd_pos[OF s])
  have rr: "N * ((1 - u) * (1 - u)) \<le> r * r" "r * r \<le> N * ((1 + u) * (1 + u))"
  proof -
    have "(?s * (1 - u)) * (?s * (1 - u)) \<le> r * r"
      using r(1) r0 s u by (intro mult_mono) simp_all
    then show "N * ((1 - u) * (1 - u)) \<le> r * r"
      using ss by (simp add: algebra_simps)
    have "r * r \<le> (?s * (1 + u)) * (?s * (1 + u))"
      using r(2) r0 by (intro mult_mono) simp_all
    then show "r * r \<le> N * ((1 + u) * (1 + u))"
      using ss by (simp add: algebra_simps)
  qed
  have rr0: "0 < r * r" using r0 by simp
  have p0: "0 < p" unfolding p_def by (rule rnd_pos[OF rr0])
  have p: "r * r * (1 - u) \<le> p" "p \<le> r * r * (1 + u)"
    using rnd_rel[OF rr0] by (simp_all add: p_def u_def)
  have pl: "N * ((1 - u) * (1 - u) * (1 - u)) \<le> p"
  proof -
    have "N * ((1 - u) * (1 - u)) * (1 - u) \<le> r * r * (1 - u)"
      using rr(1) u by (intro mult_right_mono) simp_all
    then show ?thesis using p(1) by (simp add: mult.assoc)
  qed
  have pu: "p \<le> N * ((1 + u) * (1 + u) * (1 + u))"
  proof -
    have "r * r * (1 + u) \<le> N * ((1 + u) * (1 + u)) * (1 + u)"
      using rr(2) u by (intro mult_right_mono) simp_all
    then show ?thesis using p(2) by (simp add: mult.assoc)
  qed
  let ?q = "N / p"
  have q0: "0 < ?q" using N p0 by simp
  have lo3: "0 < (1 - u) * (1 - u) * (1 - u)" using u by simp
  have hi3: "0 < (1 + u) * (1 + u) * (1 + u)" using u by simp
  have qu: "?q \<le> 1 / ((1 - u) * (1 - u) * (1 - u))"
  proof -
    have "?q \<le> N / (N * ((1 - u) * (1 - u) * (1 - u)))"
      using pl N p0 lo3 by (intro divide_left_mono) simp_all
    then show ?thesis using N by simp
  qed
  have ql: "1 / ((1 + u) * (1 + u) * (1 + u)) \<le> ?q"
  proof -
    have "N / (N * ((1 + u) * (1 + u) * (1 + u))) \<le> ?q"
      using pu N p0 hi3 by (intro divide_left_mono) simp_all
    then show ?thesis using N by simp
  qed
  have c: "?q * (1 - u) \<le> rnd ?q" "rnd ?q \<le> ?q * (1 + u)"
    using rnd_rel[OF q0] by (simp_all add: u_def)
  have cu: "rnd ?q \<le> 1 / ((1 - u) * (1 - u) * (1 - u)) * (1 + u)"
    using c(2) qu u by (meson add_pos_pos less_eq_real_def mult_right_mono order_trans zero_less_one)
  have cl: "1 / ((1 + u) * (1 + u) * (1 + u)) * (1 - u) \<le> rnd ?q"
  proof -
    have "1 / ((1 + u) * (1 + u) * (1 + u)) * (1 - u) \<le> ?q * (1 - u)"
      using ql u by (intro mult_right_mono) simp_all
    then show ?thesis using c(1) by linarith
  qed
  have nu: "1 / ((1 - u) * (1 - u) * (1 - u)) * (1 + u) \<le> 1 + 1 / 2 ^ 50"
    by (simp add: u_def)
  have nl: "1 - 1 / 2 ^ 50 \<le> 1 / ((1 + u) * (1 + u) * (1 + u)) * (1 - u)"
    by (simp add: u_def)
  show "0 < p" by (rule p0)
  show "\<bar>rnd (N / p) - 1\<bar> \<le> 1 / 2 ^ 50"
  proof -
    have "rnd (N / p) \<le> 1 + 1 / 2 ^ 50" using cu nu by (rule order_trans)
    moreover have "1 - 1 / 2 ^ 50 \<le> rnd (N / p)" using nl cl by (rule order_trans)
    ultimately show ?thesis unfolding abs_le_iff by linarith
  qed
qed

lemma rnd_0: "rnd 0 = 0"
  by (simp add: rnd_def)

lemma rnd_1: "rnd 1 = 1"
  by (simp add: rnd_def roundHalfEven_def pow2_def Let_def)

lemma rnd_4: "rnd 4 = 4"
  using rnd_eval[of 4 2 "2 ^ 52"] by (simp add: pow2_def)

lemma rnd_half: "rnd (1 / 2) = 1 / 2"
  using rnd_eval[of "1 / 2" "- 1" "2 ^ 52"] by (simp add: pow2_def)

lemma rnd_nonneg: "0 \<le> x \<Longrightarrow> 0 \<le> rnd x"
  using rnd_pos[of x] by (cases "x = 0") (simp_all add: rnd_0 less_imp_le)

lemma rnd_neg:
  assumes "x < 0"
  shows "rnd x < 0"
proof -
  define e where "e = \<lfloor>log 2 \<bar>x\<bar>\<rfloor>"
  define y where "y = x * pow2 (52 - e)"
  have e: "pow2 e \<le> \<bar>x\<bar>"
    using assms floor_log_eq_powr_iff[of "\<bar>x\<bar>" 2 e] by (simp add: e_def pow2_powr)
  have "pow2 52 = pow2 e * pow2 (52 - e)"
    using pow2_add[of e "52 - e"] by simp
  also have "\<dots> \<le> \<bar>x\<bar> * pow2 (52 - e)"
    using e pow2_pos[of "52 - e"] by (simp add: mult_right_mono)
  also have "\<dots> = - y"
    using assms by (simp add: y_def)
  finally have y: "y \<le> - pow2 52" by simp
  have "of_int (roundHalfEven y) \<le> y + 1 / 2"
    using roundHalfEven_err[of y] by linarith
  also have "\<dots> < 0" using y by (simp add: pow2_def)
  finally have "of_int (roundHalfEven y) * pow2 (e - 52) < 0"
    using pow2_pos[of "e - 52"] by (simp add: mult_less_0_iff)
  moreover have "rnd x = of_int (roundHalfEven y) * pow2 (e - 52)"
    using assms by (simp add: rnd_def e_def y_def Let_def)
  ultimately show ?thesis by simp
qed

subsection \<open>The sums of the cosine similarity\<close>

text \<open>The sums that \<open>cosineSimilarity\<close> computes, and their symmetry. The keys of a
  Go map are distinct.\<close>

lemma fold_dot_norm:
  "fold (\<lambda>(key, val) (dp, na). (dp + val * mapGet b key, na + val * val)) a (dp0, na0) =
     (dp0 + (\<Sum>(k, v)\<leftarrow>a. v * mapGet b k), na0 + (\<Sum>(k, v)\<leftarrow>a. v * v))"
  by (induction a arbitrary: dp0 na0) (auto simp: algebra_simps)

lemma fold_norm:
  "fold (\<lambda>(key, val) nb. nb + val * val) b n0 = n0 + (\<Sum>(k, v)\<leftarrow>b. v * v)"
  by (induction b arbitrary: n0) (auto simp: algebra_simps)

lemma cosineSimilarity_sums:
  "cosineSimilarity a b =
     (if a = [] \<or> b = [] then F64 0
      else if (\<Sum>(k, v)\<leftarrow>a. v * v) = 0 \<or> (\<Sum>(k, v)\<leftarrow>b. v * v) = 0 then F64 0
      else f64_div (f64_of_int (\<Sum>(k, v)\<leftarrow>a. v * mapGet b k))
             (f64_mul (f64_sqrt (f64_of_int (\<Sum>(k, v)\<leftarrow>a. v * v)))
                      (f64_sqrt (f64_of_int (\<Sum>(k, v)\<leftarrow>b. v * v)))))"
  by (simp add: cosineSimilarity_def fold_dot_norm fold_norm)

lemma mapGet_Cons: "mapGet ((k, v) # a) k' = (if k' = k then v else mapGet a k')"
  by (simp add: mapGet_def)

lemma mapGet_notin: "k \<notin> fst ` set a \<Longrightarrow> mapGet a k = 0"
  by (simp add: mapGet_def map_of_eq_None_iff[THEN iffD2])

lemma sum_list_alist:
  fixes f :: "string \<Rightarrow> goint \<Rightarrow> goint"
  shows "distinct (map fst a) \<Longrightarrow>
   (\<Sum>(k, v)\<leftarrow>a. f k v) = (\<Sum>k \<in> fst ` set a. f k (mapGet a k))"
proof (induction a)
  case Nil
  then show ?case by simp
next
  case (Cons x a)
  obtain k v where x: "x = (k, v)" by (cases x)
  have k: "k \<notin> fst ` set a" and d: "distinct (map fst a)"
    using Cons.prems x by auto
  have "(\<Sum>k' \<in> fst ` set a. f k' (mapGet ((k, v) # a) k')) =
        (\<Sum>k' \<in> fst ` set a. f k' (mapGet a k'))"
    using k by (intro sum.cong) (auto simp: mapGet_Cons)
  then show ?case
    using k Cons.IH[OF d] by (simp add: x mapGet_Cons)
qed

lemma dot_sym:
  assumes "distinct (map fst a)" "distinct (map fst b)"
  shows "(\<Sum>(k, v)\<leftarrow>a. v * mapGet b k) = (\<Sum>(k, v)\<leftarrow>b. v * mapGet a k)"
proof -
  let ?A = "fst ` set a" and ?B = "fst ` set b"
  let ?g = "\<lambda>k. mapGet a k * mapGet b k"
  have "(\<Sum>(k, v)\<leftarrow>a. v * mapGet b k) = sum ?g ?A"
    using sum_list_alist[OF assms(1), of "\<lambda>k v. v * mapGet b k"] by simp
  also have "\<dots> = sum ?g (?A \<union> ?B)"
    by (intro sum.mono_neutral_left) (auto simp: mapGet_notin)
  also have "\<dots> = sum ?g ?B"
    by (intro sum.mono_neutral_right) (auto simp: mapGet_notin)
  also have "\<dots> = (\<Sum>k \<in> ?B. mapGet b k * mapGet a k)"
    by (simp add: mult.commute)
  also have "\<dots> = (\<Sum>(k, v)\<leftarrow>b. v * mapGet a k)"
    using sum_list_alist[OF assms(2), of "\<lambda>k v. v * mapGet a k"] by simp
  finally show ?thesis .
qed

lemma dot_self:
  assumes "distinct (map fst a)"
  shows "(\<Sum>(k, v)\<leftarrow>a. v * mapGet a k) = (\<Sum>(k, v)\<leftarrow>a. v * v)"
proof -
  have "mapGet a k = v" if "(k, v) \<in> set a" for k v
    using assms that by (simp add: mapGet_def)
  then show ?thesis
    by (intro arg_cong[where f = sum_list] map_cong) auto
qed

lemma f64_mul_commute: "f64_mul x y = f64_mul y x"
  by (cases x; cases y) (simp_all add: mult.commute)

lemma cosineSimilarity_sym:
  assumes "distinct (map fst a)" "distinct (map fst b)"
  shows "cosineSimilarity a b = cosineSimilarity b a"
  using dot_sym[OF assms] by (auto simp: cosineSimilarity_sums f64_mul_commute)

lemma int63_lower: "0 \<le> (x :: int) \<Longrightarrow> - (2 ^ 63) \<le> x"
  by (rule order_trans[of _ 0]) simp_all

lemma sint_sum_squares:
  "(\<Sum>(k, v)\<leftarrow>a. sint v * sint v) < 2 ^ 63 \<Longrightarrow>
   sint (\<Sum>(k, v)\<leftarrow>a. v * v :: goint) = (\<Sum>(k, v)\<leftarrow>a. sint v * sint v)"
proof (induction a)
  case Nil
  then show ?case by simp
next
  case (Cons x a)
  obtain k v where x: "x = (k, v)" by (cases x)
  let ?r = "\<Sum>(k, v)\<leftarrow>a. sint v * sint v"
  have nn: "0 \<le> ?r"
    by (rule sum_list_nonneg) auto
  have sq: "0 \<le> sint v * sint v" by simp
  have tot: "sint v * sint v + ?r < 2 ^ 63"
    using Cons.prems by (simp add: x)
  have rb: "?r < 2 ^ 63" using tot sq by linarith
  have vb: "sint v * sint v < 2 ^ 63" using tot nn by linarith
  have r: "sint (\<Sum>(k, v)\<leftarrow>a. v * v :: goint) = ?r"
    using Cons.IH[OF rb] .
  have "sint (v * v) = signed_take_bit 63 (sint v * sint v)"
    by (simp add: sint_word_ariths)
  also have "\<dots> = sint v * sint v"
  proof (rule signed_take_bit_int_eq_self)
    show "- (2 ^ 63) \<le> sint v * sint v" using sq by (rule int63_lower)
    show "sint v * sint v < 2 ^ 63" by (rule vb)
  qed
  finally have v: "sint (v * v) = sint v * sint v" .
  have "sint (v * v + (\<Sum>(k, v)\<leftarrow>a. v * v)) =
        signed_take_bit (LENGTH(64) - 1) (sint (v * v) + sint (\<Sum>(k, v)\<leftarrow>a. v * v :: goint))"
    by (rule sint_word_ariths(1))
  also have "\<dots> = signed_take_bit 63 (sint v * sint v + ?r)"
    by (simp add: v r)
  also have "\<dots> = sint v * sint v + ?r"
  proof (rule signed_take_bit_int_eq_self)
    have "0 \<le> sint v * sint v + ?r" using sq nn by (rule add_nonneg_nonneg)
    then show "- (2 ^ 63) \<le> sint v * sint v + ?r" by (rule int63_lower)
    show "sint v * sint v + ?r < 2 ^ 63" by (rule tot)
  qed
  finally have "sint (v * v + (\<Sum>(k, v)\<leftarrow>a. v * v)) = sint v * sint v + ?r" .
  then show ?case by (simp add: x)
qed

lemma sum_squares_pos:
  "a \<noteq> [] \<Longrightarrow> \<forall>(k, v) \<in> set a. 0 < sint (v :: goint) \<Longrightarrow>
   0 < (\<Sum>(k, v)\<leftarrow>a. sint v * sint v)"
proof (cases a)
  case Nil
  then show "a \<noteq> [] \<Longrightarrow> ?thesis" by simp
next
  case (Cons x a')
  assume "\<forall>(k, v) \<in> set a. 0 < sint (v :: goint)"
  then have "0 < sint (snd x) * sint (snd x)" using Cons by (cases x) auto
  moreover have "0 \<le> (\<Sum>(k, v)\<leftarrow>a'. sint v * sint v)"
    by (rule sum_list_nonneg) auto
  ultimately show ?thesis using Cons by (cases x) auto
qed

text \<open>Sums of non-negative products that stay below \<open>2^63\<close> do not wrap; the dot
  product of two maps is at most the mean of their squared norms. So the similarity
  of two maps of positive counts whose squares sum to less than \<open>2^63\<close> is a number,
  and not negative.\<close>

lemma sint_mult_nonneg:
  fixes v w :: goint
  assumes "0 \<le> sint v" "0 \<le> sint w" "sint v * sint w < 2 ^ 63"
  shows "sint (v * w) = sint v * sint w"
proof -
  have "sint (v * w) = signed_take_bit 63 (sint v * sint w)"
    by (simp add: sint_word_ariths)
  also have "\<dots> = sint v * sint w"
  proof (rule signed_take_bit_int_eq_self)
    have "0 \<le> sint v * sint w" using assms(1,2) by simp
    then show "- (2 ^ 63) \<le> sint v * sint w" by (rule int63_lower)
    show "sint v * sint w < 2 ^ 63" by (rule assms(3))
  qed
  finally show ?thesis .
qed

lemma sint_add_nonneg:
  fixes v w :: goint
  assumes "0 \<le> sint v" "0 \<le> sint w" "sint v + sint w < 2 ^ 63"
  shows "sint (v + w) = sint v + sint w"
proof -
  have "sint (v + w) = signed_take_bit (LENGTH(64) - 1) (sint v + sint w)"
    by (rule sint_word_ariths(1))
  also have "\<dots> = signed_take_bit 63 (sint v + sint w)" by simp
  also have "\<dots> = sint v + sint w"
  proof (rule signed_take_bit_int_eq_self)
    have "0 \<le> sint v + sint w" using assms(1,2) by simp
    then show "- (2 ^ 63) \<le> sint v + sint w" by (rule int63_lower)
    show "sint v + sint w < 2 ^ 63" by (rule assms(3))
  qed
  finally show ?thesis .
qed

lemma sint_sum_dot:
  fixes g :: "string \<Rightarrow> goint"
  shows "\<forall>(k, v) \<in> set a. 0 \<le> sint v \<and> 0 \<le> sint (g k) \<Longrightarrow>
   (\<Sum>(k, v)\<leftarrow>a. sint v * sint (g k)) < 2 ^ 63 \<Longrightarrow>
   sint (\<Sum>(k, v)\<leftarrow>a. v * g k) = (\<Sum>(k, v)\<leftarrow>a. sint v * sint (g k))"
proof (induction a)
  case Nil
  then show ?case by simp
next
  case (Cons x a)
  obtain k v where x: "x = (k, v)" by (cases x)
  let ?r = "\<Sum>(k, v)\<leftarrow>a. sint v * sint (g k)"
  have pos: "\<forall>(k, v) \<in> set a. 0 \<le> sint v \<and> 0 \<le> sint (g k)" "0 \<le> sint v" "0 \<le> sint (g k)"
    using Cons.prems(1) by (auto simp: x)
  have nn: "0 \<le> ?r"
    by (rule sum_list_nonneg) (use pos(1) in auto)
  have p: "0 \<le> sint v * sint (g k)" using pos(2,3) by simp
  have tot: "sint v * sint (g k) + ?r < 2 ^ 63"
    using Cons.prems(2) by (simp add: x)
  have rb: "?r < 2 ^ 63" using tot p by linarith
  have vb: "sint v * sint (g k) < 2 ^ 63" using tot nn by linarith
  have r: "sint (\<Sum>(k, v)\<leftarrow>a. v * g k) = ?r"
    using Cons.IH[OF pos(1) rb] .
  have v: "sint (v * g k) = sint v * sint (g k)"
    using pos(2,3) vb by (rule sint_mult_nonneg)
  have "sint (v * g k + (\<Sum>(k, v)\<leftarrow>a. v * g k)) = sint (v * g k) + sint (\<Sum>(k, v)\<leftarrow>a. v * g k)"
    by (rule sint_add_nonneg) (use p nn tot in \<open>simp_all add: v r\<close>)
  then show ?case by (simp add: x v r)
qed

lemma mapGet_cases: "mapGet b k = 0 \<or> (k, mapGet b k) \<in> set b"
  by (auto simp: mapGet_def split: option.splits dest: map_of_SomeD)

lemma sum_list_alist_int:
  fixes f :: "string \<Rightarrow> goint \<Rightarrow> int"
  shows "distinct (map fst a) \<Longrightarrow>
   (\<Sum>(k, v)\<leftarrow>a. f k v) = (\<Sum>k \<in> fst ` set a. f k (mapGet a k))"
proof (induction a)
  case Nil
  then show ?case by simp
next
  case (Cons x a)
  obtain k v where x: "x = (k, v)" by (cases x)
  have k: "k \<notin> fst ` set a" and d: "distinct (map fst a)"
    using Cons.prems x by auto
  have "(\<Sum>k' \<in> fst ` set a. f k' (mapGet ((k, v) # a) k')) =
        (\<Sum>k' \<in> fst ` set a. f k' (mapGet a k'))"
    using k by (intro sum.cong) (auto simp: mapGet_Cons)
  then show ?case
    using k Cons.IH[OF d] by (simp add: x mapGet_Cons)
qed

lemma keys_sum_le:
  assumes "distinct (map fst a)" "distinct (map fst b)"
  shows "(\<Sum>(k, v)\<leftarrow>a. sint (mapGet b k) * sint (mapGet b k)) \<le> (\<Sum>(k, v)\<leftarrow>b. sint v * sint v)"
proof -
  let ?A = "fst ` set a" and ?B = "fst ` set b"
  let ?h = "\<lambda>k. sint (mapGet b k) * sint (mapGet b k)"
  have "(\<Sum>(k, v)\<leftarrow>a. ?h k) = sum_list (map ?h (map fst a))"
    by (induction a) auto
  also have "\<dots> = sum ?h (set (map fst a))"
    using assms(1) by (rule sum_list_distinct_conv_sum_set)
  also have "\<dots> = sum ?h ?A" by simp
  also have "\<dots> = sum ?h (?A \<inter> ?B)"
    by (intro sum.mono_neutral_right) (auto simp: mapGet_notin)
  also have "\<dots> \<le> sum ?h ?B"
    by (intro sum_mono2) auto
  also have "\<dots> = (\<Sum>(k, v)\<leftarrow>b. sint v * sint v)"
    using sum_list_alist_int[OF assms(2), of "\<lambda>k v. sint v * sint v"] by simp
  finally show ?thesis .
qed

lemma dot_bound:
  assumes "distinct (map fst a)" "distinct (map fst b)"
  shows "2 * (\<Sum>(k, v)\<leftarrow>a. sint v * sint (mapGet b k)) \<le>
         (\<Sum>(k, v)\<leftarrow>a. sint v * sint v) + (\<Sum>(k, v)\<leftarrow>b. sint v * sint v)"
proof -
  have xy: "2 * (x * y) \<le> x * x + y * y" for x y :: int
    using zero_le_square[of "x - y"] by (simp add: algebra_simps)
  have "2 * (\<Sum>(k, v)\<leftarrow>a. sint v * sint (mapGet b k)) =
        (\<Sum>(k, v)\<leftarrow>a. 2 * (sint v * sint (mapGet b k)))"
    by (induction a) (auto simp: algebra_simps)
  also have "\<dots> \<le> (\<Sum>(k, v)\<leftarrow>a. sint v * sint v + sint (mapGet b k) * sint (mapGet b k))"
    by (rule sum_list_mono) (auto simp: xy)
  also have "\<dots> = (\<Sum>(k, v)\<leftarrow>a. sint v * sint v) +
                    (\<Sum>(k, v)\<leftarrow>a. sint (mapGet b k) * sint (mapGet b k))"
    by (induction a) auto
  also have "\<dots> \<le> (\<Sum>(k, v)\<leftarrow>a. sint v * sint v) + (\<Sum>(k, v)\<leftarrow>b. sint v * sint v)"
    using keys_sum_le[OF assms] by simp
  finally show ?thesis .
qed

lemma cosineSimilarity_nonneg:
  assumes "distinct (map fst a)" "\<forall>(k, v) \<in> set a. 0 < sint v"
          "(\<Sum>(k, v)\<leftarrow>a. sint v * sint v) < 2 ^ 63"
      and "distinct (map fst b)" "\<forall>(k, v) \<in> set b. 0 < sint v"
          "(\<Sum>(k, v)\<leftarrow>b. sint v * sint v) < 2 ^ 63"
  shows "\<exists>x. cosineSimilarity a b = F64 x \<and> 0 \<le> x"
proof (cases "a = [] \<or> b = []")
  case True
  then show ?thesis by (auto simp: cosineSimilarity_sums)
next
  case False
  then have ne: "a \<noteq> []" "b \<noteq> []" by simp_all
  define na :: goint where "na = (\<Sum>(k, v)\<leftarrow>a. v * v)"
  define nb :: goint where "nb = (\<Sum>(k, v)\<leftarrow>b. v * v)"
  define dp :: goint where "dp = (\<Sum>(k, v)\<leftarrow>a. v * mapGet b k)"
  have sa: "0 < sint na"
    using sint_sum_squares[OF assms(3)] sum_squares_pos[OF ne(1) assms(2)] by (simp add: na_def)
  have sb: "0 < sint nb"
    using sint_sum_squares[OF assms(6)] sum_squares_pos[OF ne(2) assms(5)] by (simp add: nb_def)
  have n0: "na \<noteq> 0" "nb \<noteq> 0" using sa sb by auto
  have g: "0 \<le> sint (mapGet b k)" for k
    using mapGet_cases[of b k] assms(5) by (auto simp: less_imp_le)
  have pos: "\<forall>(k, v) \<in> set a. 0 \<le> sint v \<and> 0 \<le> sint (mapGet b k)"
    using assms(2) g by (auto simp: less_imp_le)
  have "2 * (\<Sum>(k, v)\<leftarrow>a. sint v * sint (mapGet b k)) < 2 * 2 ^ 63"
    using dot_bound[OF assms(1,4)] assms(3,6) by linarith
  then have db: "(\<Sum>(k, v)\<leftarrow>a. sint v * sint (mapGet b k)) < 2 ^ 63" by simp
  have "sint dp = (\<Sum>(k, v)\<leftarrow>a. sint v * sint (mapGet b k))"
    unfolding dp_def using pos db by (rule sint_sum_dot)
  moreover have "0 \<le> (\<Sum>(k, v)\<leftarrow>a. sint v * sint (mapGet b k))"
    by (rule sum_list_nonneg) (use pos in auto)
  ultimately have sd: "0 \<le> sint dp" by simp
  define A :: real where "A = rnd (of_int (sint na))"
  define B :: real where "B = rnd (of_int (sint nb))"
  define D :: real where "D = rnd (of_int (sint dp))"
  have "0 < (of_int (sint na) :: real)" using sa by (simp only: of_int_0_less_iff)
  then have A: "0 < A" unfolding A_def by (rule rnd_pos)
  have "0 < (of_int (sint nb) :: real)" using sb by (simp only: of_int_0_less_iff)
  then have B: "0 < B" unfolding B_def by (rule rnd_pos)
  have "0 \<le> (of_int (sint dp) :: real)" using sd by (simp only: of_int_0_le_iff)
  then have D: "0 \<le> D" unfolding D_def by (rule rnd_nonneg)
  have f: "f64_of_int na = F64 A" "f64_of_int nb = F64 B" "f64_of_int dp = F64 D"
    by (simp_all add: f64_of_int_def A_def B_def D_def)
  have sA: "0 < rnd (sqrt A)" using A by (intro rnd_pos) simp
  have sB: "0 < rnd (sqrt B)" using B by (intro rnd_pos) simp
  have P: "0 < rnd (rnd (sqrt A) * rnd (sqrt B))"
    using sA sB by (intro rnd_pos) simp
  have "cosineSimilarity a b =
      f64_div (f64_of_int dp) (f64_mul (f64_sqrt (f64_of_int na)) (f64_sqrt (f64_of_int nb)))"
    using ne n0 by (simp add: cosineSimilarity_sums na_def nb_def dp_def)
  also have "\<dots> = F64 (rnd (D / rnd (rnd (sqrt A) * rnd (sqrt B))))"
    using A B P by (simp add: f)
  finally have "cosineSimilarity a b = F64 (rnd (D / rnd (rnd (sqrt A) * rnd (sqrt B))))" .
  moreover have "0 \<le> rnd (D / rnd (rnd (sqrt A) * rnd (sqrt B)))"
    using D P by (intro rnd_nonneg) simp
  ultimately show ?thesis by blast
qed

subsection \<open>C8: the similarity check\<close>

lemma tokenizeLoop_samples:
  "tokenizeLoop L (d\<lparr>tokenizedSpam := samples\<rparr>) ts tf = tokenizeLoop L d ts tf"
  by (induction ts arbitrary: tf) (simp_all add: Let_def)

lemma tokenize_samples: "tokenize L (d\<lparr>tokenizedSpam := samples\<rparr>) msg = tokenize L d msg"
  by (simp add: tokenize_def tokenizeLoop_samples)

lemma similarityLoop_Name: "Name (similarityLoop L thr tm samples m) = ''similarity''"
  by (induction samples arbitrary: m) (simp_all add: Let_def)

text \<open>The loop stops at the first sample that reaches the threshold.\<close>

lemma similarityLoop_hit:
  assumes "\<forall>p \<in> set pre. \<not> f64_ge (cosineSimilarity tm p) thr"
      and "f64_ge (cosineSimilarity tm s) thr"
  shows "Spam (similarityLoop L thr tm (pre @ s # post) m) \<and>
         similarityLoop L thr tm (pre @ s # post) m = similarityLoop L thr tm (pre @ [s]) m"
proof -
  have "Spam (similarityLoop L thr tm (pre @ s # post) m)"
    using assms by (induction pre arbitrary: m) (simp_all add: Let_def)
  moreover have "similarityLoop L thr tm (pre @ s # post) m =
                 similarityLoop L thr tm (pre @ [s]) m"
    using assms by (induction pre arbitrary: m) (simp_all add: Let_def)
  ultimately show ?thesis by simp
qed

text \<open>Without such a sample it runs to the end and reports the running maximum, which
  is the start value or the similarity of a sample, and is exceeded by no sample.\<close>

lemma similarityLoop_miss:
  assumes "\<forall>s \<in> set samples. \<not> f64_ge (cosineSimilarity tm s) thr" and "m \<noteq> NaN"
  shows "\<exists>mx. mx \<noteq> NaN \<and> similarityLoop L thr tm samples m =
                \<lparr>Name = ''similarity'', Spam = False,
                 Details = sprintf_f2 L mx @ ''/'' @ sprintf_f2 L thr\<rparr> \<and>
              (mx = m \<or> mx \<in> cosineSimilarity tm ` set samples) \<and>
              \<not> f64_gt m mx \<and>
              (\<forall>s \<in> set samples. \<not> f64_gt (cosineSimilarity tm s) mx)"
  using assms
proof (induction samples arbitrary: m)
  case Nil
  then show ?case by (cases m) simp_all
next
  case (Cons s samples)
  let ?c = "cosineSimilarity tm s"
  let ?m = "if f64_gt ?c m then ?c else m"
  from Cons.prems have rest: "\<forall>s \<in> set samples. \<not> f64_ge (cosineSimilarity tm s) thr"
    and here: "\<not> f64_ge ?c thr" by simp_all
  have nn: "?m \<noteq> NaN"
    using Cons.prems(2) by (cases ?c) auto
  from Cons.IH[OF rest nn] obtain mx where
    mxn: "mx \<noteq> NaN" and
    mx: "similarityLoop L thr tm samples ?m =
           \<lparr>Name = ''similarity'', Spam = False,
            Details = sprintf_f2 L mx @ ''/'' @ sprintf_f2 L thr\<rparr>"
        "mx = ?m \<or> mx \<in> cosineSimilarity tm ` set samples"
        "\<not> f64_gt ?m mx"
        "\<forall>s \<in> set samples. \<not> f64_gt (cosineSimilarity tm s) mx"
    by blast
  have up: "\<not> f64_gt m mx \<and> \<not> f64_gt ?c mx"
    using mx(3) mxn Cons.prems(2) by (cases m; cases ?c; cases mx) (auto split: if_splits)
  have "similarityLoop L thr tm (s # samples) m =
          \<lparr>Name = ''similarity'', Spam = False,
           Details = sprintf_f2 L mx @ ''/'' @ sprintf_f2 L thr\<rparr>"
    using here mx(1) by (simp add: Let_def)
  moreover have "mx = m \<or> mx \<in> cosineSimilarity tm ` set (s # samples)"
    using mx(2) by (auto split: if_splits)
  ultimately show ?case using up mx(4) mxn by auto
qed

lemma laterChecks_similarity:
  "laterChecks L d msg u acc = Inr acc' \<Longrightarrow> SimilarityCheck \<notin> set (snd acc) \<Longrightarrow>
   (SimilarityCheck \<in> set (snd acc') \<longleftrightarrow>
      f64_gt (SimilarityThreshold (config d)) (F64 0) \<and> tokenizedSpam d \<noteq> []) \<and>
   (SimilarityCheck \<in> set (snd acc') \<longrightarrow> isSpamSimilarityHigh L d msg \<in> set (fst acc'))"
  by (auto simp: laterChecks_def appendResult_def Let_def split: if_splits sum.splits)

lemma openaiStep_keeps:
  "openaiStep d msg sd acc = (sd', acc') \<Longrightarrow>
   (SimilarityCheck \<in> set (snd acc') \<longleftrightarrow> SimilarityCheck \<in> set (snd acc)) \<and>
   set (fst acc) \<subseteq> set (fst acc')"
  by (auto simp: openaiStep_def appendResult_def split: option.splits if_splits prod.splits)

text \<open>\<^verbatim>\<open>Check\<close> calls the similarity check only on the path through the later checks,
  and there exactly when the threshold is above 0 and a sample is loaded.\<close>

lemma Check_similarity:
  assumes "Check L d msg userID = Inr out"
  shows "(SimilarityCheck \<in> set (origins out) \<longrightarrow>
            f64_gt (SimilarityThreshold (config d)) (F64 0) \<and> tokenizedSpam d \<noteq> [] \<and>
            isSpamSimilarityHigh L d msg \<in> set (cr out)) \<and>
         (f64_gt (SimilarityThreshold (config d)) (F64 0) \<and> tokenizedSpam d \<noteq> [] \<and>
          \<not> preApproved d userID \<and> \<not> tooShort L d msg \<longrightarrow>
            SimilarityCheck \<in> set (origins out))"
proof (cases "preApproved d userID")
  case True
  then show ?thesis using assms by (auto simp: Check_preApproved)
next
  case np: False
  show ?thesis
  proof (cases "tooShort L d msg")
    case True
    show ?thesis using assms True firstChecks_origins[of L d msg]
      by (auto simp: Check_tooShort[OF np True])
  next
    case ns: False
    show ?thesis
    proof (cases "laterChecks L d msg userID (firstChecks L d msg)")
      case (Inl p)
      then show ?thesis using assms np ns by (simp add: Check_panics)
    next
      case (Inr acc)
      have "SimilarityCheck \<notin> set (snd (firstChecks L d msg))"
        using firstChecks_origins[of L d msg] by auto
      note lc = laterChecks_similarity[OF Inr this]
      obtain sd' acc' where o: "openaiStep d msg (isSpamDetected (fst acc)) acc = (sd', acc')"
        by (cases "openaiStep d msg (isSpamDetected (fst acc)) acc") auto
      show ?thesis
        using assms np ns lc openaiStep_keeps[OF o]
        by (auto simp: Check_aggregate[OF np ns Inr] o)
    qed
  qed
qed

text \<open>The tokens of a message that repeats the word \<open>aaa\<close>.\<close>

lemma Split_repeat:
  "Split (concat (replicate n ''aaa '')) CHR '' '' = replicate n ''aaa'' @ [[]]"
  by (induction n) simp_all

lemma tokenizeLoop_repeat:
  "excludedTokens d = [] \<Longrightarrow>
   tokenizeLoop asciiLib d (replicate n ''aaa'') [(''aaa'', c)] = [(''aaa'', c + of_nat n)]"
  by (induction n arbitrary: c)
     (simp_all add: asciiLib_def Trim_def asciiLower_def mapIncr_def Let_def)

lemma tokenize_repeat:
  assumes "excludedTokens d = []" "0 < n"
  shows "tokenize asciiLib d (concat (replicate n ''aaa '')) = [(''aaa'', of_nat n)]"
proof -
  obtain m where n: "n = Suc m" using assms(2) by (cases n) auto
  have "Fields asciiLib (concat (replicate n ''aaa '')) = replicate n ''aaa''"
    by (simp add: asciiLib_def Split_repeat)
  moreover have "tokenizeLoop asciiLib d (replicate (Suc m) ''aaa'') [] =
                 tokenizeLoop asciiLib d (replicate m ''aaa'') [(''aaa'', 1)]"
    using assms(1) by (simp add: asciiLib_def Trim_def asciiLower_def mapIncr_def Let_def)
  ultimately show ?thesis
    using tokenizeLoop_repeat[OF assms(1), of m 1] by (simp add: tokenize_def n)
qed

text \<open>
  C8, as amended. Write \<open>tm\<close> for the tokenized message and \<open>thr\<close> for
  \<^verbatim>\<open>SimilarityThreshold\<close>. The similarity check returns spam exactly when the cosine
  similarity of \<open>tm\<close> with some stored sample is at least \<open>thr\<close>; its result is then
  the result for the samples up to the first such sample, whatever samples follow.
  Otherwise it returns ham and the details \<open>max/thr\<close>, both printed by \<^verbatim>\<open>%0.2f\<close>,
  where \<open>max\<close> is the largest of 0, the start value of the loop, and the similarities
  of the samples: it is at least 0, it is 0 or the similarity of a sample, and no
  sample's similarity is greater (a NaN is not). Provided \<open>tm\<close> and every sample are
  maps of positive counts whose squares sum to less than \<open>2^63\<close>, so that no sum of
  \<^verbatim>\<open>cosineSimilarity\<close> wraps, and a sample is loaded, \<open>max\<close> is the maximum of the
  similarities of the samples. \<^verbatim>\<open>Check\<close> calls the check only when \<open>thr > 0\<close> and a
  sample is loaded, and then, for a user who is not pre-approved and a message that is
  not too short, it does call it.
\<close>

theorem similarity_check:
  assumes "tm = tokenize L d msg" and "thr = SimilarityThreshold (config d)"
  shows "Name (isSpamSimilarityHigh L d msg) = ''similarity'' \<and>
         (Spam (isSpamSimilarityHigh L d msg) \<longleftrightarrow>
            (\<exists>s \<in> set (tokenizedSpam d). f64_ge (cosineSimilarity tm s) thr)) \<and>
         (\<forall>pre s post.
            tokenizedSpam d = pre @ s # post \<and>
            (\<forall>p \<in> set pre. \<not> f64_ge (cosineSimilarity tm p) thr) \<and>
            f64_ge (cosineSimilarity tm s) thr \<longrightarrow>
            isSpamSimilarityHigh L d msg =
              isSpamSimilarityHigh L (d\<lparr>tokenizedSpam := pre @ [s]\<rparr>) msg) \<and>
         (\<not> Spam (isSpamSimilarityHigh L d msg) \<longrightarrow>
            (\<exists>mx. Details (isSpamSimilarityHigh L d msg) =
                     sprintf_f2 L mx @ ''/'' @ sprintf_f2 L thr \<and>
                  f64_ge mx (F64 0) \<and>
                  (\<forall>s \<in> set (tokenizedSpam d). \<not> f64_gt (cosineSimilarity tm s) mx) \<and>
                  (mx = F64 0 \<or> mx \<in> cosineSimilarity tm ` set (tokenizedSpam d)) \<and>
                  ((\<forall>a \<in> set (tm # tokenizedSpam d).
                      distinct (map fst a) \<and> (\<forall>(k, v) \<in> set a. 0 < sint v) \<and>
                      (\<Sum>(k, v)\<leftarrow>a. sint v * sint v) < 2 ^ 63) \<and>
                   tokenizedSpam d \<noteq> [] \<longrightarrow>
                     mx \<in> cosineSimilarity tm ` set (tokenizedSpam d) \<and>
                     (\<forall>s \<in> set (tokenizedSpam d). f64_ge mx (cosineSimilarity tm s))))) \<and>
         (\<forall>userID out.
            Check L d msg userID = Inr out \<and> (\<not> f64_gt thr (F64 0) \<or> tokenizedSpam d = []) \<longrightarrow>
            SimilarityCheck \<notin> set (origins out)) \<and>
         (\<forall>userID out.
            Check L d msg userID = Inr out \<and> f64_gt thr (F64 0) \<and> tokenizedSpam d \<noteq> [] \<and>
            \<not> preApproved d userID \<and> \<not> int (runeCount L msg) < sint (MinMsgLen (config d)) \<longrightarrow>
            SimilarityCheck \<in> set (origins out) \<and> isSpamSimilarityHigh L d msg \<in> set (cr out))"
proof -
  let ?r = "isSpamSimilarityHigh L d msg"
  let ?hit = "\<exists>s \<in> set (tokenizedSpam d). f64_ge (cosineSimilarity tm s) thr"
  let ?range = "\<forall>a \<in> set (tm # tokenizedSpam d).
                  distinct (map fst a) \<and> (\<forall>(k, v) \<in> set a. 0 < sint v) \<and>
                  (\<Sum>(k, v)\<leftarrow>a. sint v * sint v) < 2 ^ 63"
  have r: "?r = similarityLoop L thr tm (tokenizedSpam d) (F64 0)"
    by (simp add: isSpamSimilarityHigh_def assms)
  have name: "Name ?r = ''similarity''"
    by (simp add: r similarityLoop_Name)
  have first: "isSpamSimilarityHigh L d msg =
                 isSpamSimilarityHigh L (d\<lparr>tokenizedSpam := pre @ [s]\<rparr>) msg \<and> Spam ?r"
    if "tokenizedSpam d = pre @ s # post"
       "\<forall>p \<in> set pre. \<not> f64_ge (cosineSimilarity tm p) thr"
       "f64_ge (cosineSimilarity tm s) thr" for pre s post
  proof -
    note h = similarityLoop_hit[OF that(2,3), of L post "F64 0"]
    have l: "isSpamSimilarityHigh L d msg = similarityLoop L thr tm (pre @ s # post) (F64 0)"
      by (simp add: isSpamSimilarityHigh_def assms that(1))
    have r: "isSpamSimilarityHigh L (d\<lparr>tokenizedSpam := pre @ [s]\<rparr>) msg =
             similarityLoop L thr tm (pre @ [s]) (F64 0)"
      by (simp add: isSpamSimilarityHigh_def assms tokenize_samples)
    show ?thesis
      unfolding l r using h by blast
  qed
  have hit: "Spam ?r" if ?hit
  proof -
    from that obtain pre s post where
      "tokenizedSpam d = pre @ s # post" "f64_ge (cosineSimilarity tm s) thr"
      "\<forall>p \<in> set pre. \<not> f64_ge (cosineSimilarity tm p) thr"
      using split_list_first_prop[of "tokenizedSpam d" "\<lambda>s. f64_ge (cosineSimilarity tm s) thr"]
      by blast
    then show ?thesis using first by blast
  qed
  have miss: "\<not> Spam ?r \<and>
      (\<exists>mx. Details ?r = sprintf_f2 L mx @ ''/'' @ sprintf_f2 L thr \<and>
            f64_ge mx (F64 0) \<and>
            (\<forall>s \<in> set (tokenizedSpam d). \<not> f64_gt (cosineSimilarity tm s) mx) \<and>
            (mx = F64 0 \<or> mx \<in> cosineSimilarity tm ` set (tokenizedSpam d)) \<and>
            (?range \<and> tokenizedSpam d \<noteq> [] \<longrightarrow>
               mx \<in> cosineSimilarity tm ` set (tokenizedSpam d) \<and>
               (\<forall>s \<in> set (tokenizedSpam d). f64_ge mx (cosineSimilarity tm s))))" if "\<not> ?hit"
  proof -
    from that have "\<forall>s \<in> set (tokenizedSpam d). \<not> f64_ge (cosineSimilarity tm s) thr" by blast
    from similarityLoop_miss[OF this, of "F64 0" L] obtain mx where
      mx: "?r = \<lparr>Name = ''similarity'', Spam = False,
                   Details = sprintf_f2 L mx @ ''/'' @ sprintf_f2 L thr\<rparr>"
          "mx = F64 0 \<or> mx \<in> cosineSimilarity tm ` set (tokenizedSpam d)"
          "\<forall>s \<in> set (tokenizedSpam d). \<not> f64_gt (cosineSimilarity tm s) mx"
          "mx \<noteq> NaN" "\<not> f64_gt (F64 0) mx"
      unfolding r by blast
    have ge0: "f64_ge mx (F64 0)"
      using mx(4,5) by (cases mx) auto
    have top: "f64_ge mx (cosineSimilarity tm s)"
      if "?range" "s \<in> set (tokenizedSpam d)" for s
    proof -
      from that cosineSimilarity_nonneg[of tm s] obtain x where
        "cosineSimilarity tm s = F64 x" by auto
      then show ?thesis using mx(3,4) that(2) by (cases mx) auto
    qed
    have among: "mx \<in> cosineSimilarity tm ` set (tokenizedSpam d)"
      if "?range" "tokenizedSpam d \<noteq> []"
    proof (cases "mx = F64 0")
      case True
      from that(2) obtain s where s: "s \<in> set (tokenizedSpam d)"
        by (cases "tokenizedSpam d") auto
      from that(1) s cosineSimilarity_nonneg[of tm s] obtain x where
        x: "cosineSimilarity tm s = F64 x" "0 \<le> x" by auto
      have "x \<le> 0" using top[OF that(1) s] True x(1) by simp
      then have "cosineSimilarity tm s = mx" using x True by simp
      then show ?thesis using s by force
    next
      case False
      then show ?thesis using mx(2) by blast
    qed
    show ?thesis using mx(1,2,3) ge0 top among by auto
  qed
  have skip: "SimilarityCheck \<notin> set (origins out)"
    if "Check L d msg userID = Inr out" "\<not> f64_gt thr (F64 0) \<or> tokenizedSpam d = []"
    for userID out
    using Check_similarity[OF that(1)] that(2) assms(2) by blast
  have run: "SimilarityCheck \<in> set (origins out) \<and> ?r \<in> set (cr out)"
    if "Check L d msg userID = Inr out" "f64_gt thr (F64 0)" "tokenizedSpam d \<noteq> []"
       "\<not> preApproved d userID" "\<not> int (runeCount L msg) < sint (MinMsgLen (config d))"
    for userID out
    using Check_similarity[OF that(1)] that(2-5) assms(2) by (simp add: tooShort_def)
  show ?thesis
    using name hit miss first skip run by blast
qed

text \<open>Three stored samples, of which the second is the message: the check stops there.
  And two samples that share no token, and one token in four, with the message, under
  the threshold \<open>0.75\<close>: the check reports the larger similarity, \<open>0.50\<close>.\<close>

theorem similarity_check_witness:
  "tokenize asciiLib
     ((NewDetector exampleConfig)\<lparr>tokenizedSpam := [[(''pills'', 1)], [(''win'', 1)], [(''zzz'', 1)]]\<rparr>)
     ''win'' = [(''win'', 1)] \<and>
   SimilarityThreshold (config
     ((NewDetector exampleConfig)\<lparr>tokenizedSpam := [[(''pills'', 1)], [(''win'', 1)], [(''zzz'', 1)]]\<rparr>)) =
     F64 (1 / 2) \<and>
   cosineSimilarity [(''win'', 1)] [(''pills'', 1)] = F64 0 \<and>
   cosineSimilarity [(''win'', 1)] [(''win'', 1)] = F64 1 \<and>
   Spam (isSpamSimilarityHigh asciiLib
     ((NewDetector exampleConfig)\<lparr>tokenizedSpam := [[(''pills'', 1)], [(''win'', 1)], [(''zzz'', 1)]]\<rparr>)
     ''win'') \<and>
   isSpamSimilarityHigh asciiLib
     ((NewDetector exampleConfig)\<lparr>tokenizedSpam := [[(''pills'', 1)], [(''win'', 1)], [(''zzz'', 1)]]\<rparr>)
     ''win'' =
   isSpamSimilarityHigh asciiLib
     ((NewDetector exampleConfig)\<lparr>tokenizedSpam := [[(''pills'', 1)], [(''win'', 1)]]\<rparr>) ''win'' \<and>
   isSpamSimilarityHigh asciiLib
     ((NewDetector exampleConfig)\<lparr>tokenizedSpam := [[(''pills'', 1)], [(''win'', 1)]]\<rparr>) ''win'' =
     \<lparr>Name = ''similarity'', Spam = True, Details = ''1.00/0.50''\<rparr> \<and>
   cosineSimilarity [(''win'', 1)] [(''win'', 1), (''big'', 1), (''prize'', 1), (''now'', 1)] =
     F64 (1 / 2) \<and>
   isSpamSimilarityHigh asciiLib
     ((NewDetector (exampleConfig\<lparr>SimilarityThreshold := F64 (3 / 4)\<rparr>))
        \<lparr>tokenizedSpam := [[(''pills'', 1)],
                           [(''win'', 1), (''big'', 1), (''prize'', 1), (''now'', 1)]]\<rparr>) ''win'' =
     \<lparr>Name = ''similarity'', Spam = False, Details = ''0.50/0.75''\<rparr>"
proof -
  let ?d = "(NewDetector exampleConfig)\<lparr>tokenizedSpam := [[(''pills'', 1)], [(''win'', 1)], [(''zzz'', 1)]]\<rparr>"
  have tm: "[(''win'', 1)] = tokenize asciiLib ?d ''win''"
    by (simp add: tokenize_defs example_defs)
  have thr: "F64 (1 / 2) = SimilarityThreshold (config ?d)"
    by (simp add: example_defs)
  have c: "cosineSimilarity [(''win'', 1)] [(''pills'', 1)] = F64 0"
          "cosineSimilarity [(''win'', 1)] [(''win'', 1)] = F64 1"
    by (simp_all add: cosineSimilarity_def mapGet_def f64_of_int_def rnd_0 rnd_1)
  have s: "tokenizedSpam ?d = [[(''pills'', 1)]] @ [(''win'', 1)] # [[(''zzz'', 1)]] \<and>
           (\<forall>p \<in> set [[(''pills'', 1)]]. \<not> f64_ge (cosineSimilarity [(''win'', 1)] p) (F64 (1 / 2))) \<and>
           f64_ge (cosineSimilarity [(''win'', 1)] [(''win'', 1)]) (F64 (1 / 2))"
    by (simp add: c)
  have h: "\<exists>s \<in> set (tokenizedSpam ?d). f64_ge (cosineSimilarity [(''win'', 1)] s) (F64 (1 / 2))"
    by (simp add: c)
  note t = similarity_check[OF tm thr]
  have 1: "Spam (isSpamSimilarityHigh asciiLib ?d ''win'')"
    using t h by blast
  have 2: "isSpamSimilarityHigh asciiLib ?d ''win'' =
           isSpamSimilarityHigh asciiLib (?d\<lparr>tokenizedSpam := [[(''pills'', 1)]] @ [[(''win'', 1)]]\<rparr>) ''win''"
    using t s by blast
  have f: "sprintf_f2 asciiLib (F64 1) = ''1.00''" "sprintf_f2 asciiLib (F64 (1 / 2)) = ''0.50''"
          "sprintf_f2 asciiLib (F64 (3 / 4)) = ''0.75''"
    by (simp_all add: asciiLib_def showFixed2_def roundHalfEven_def)
  have 3: "isSpamSimilarityHigh asciiLib
             ((NewDetector exampleConfig)\<lparr>tokenizedSpam := [[(''pills'', 1)], [(''win'', 1)]]\<rparr>) ''win'' =
           \<lparr>Name = ''similarity'', Spam = True, Details = ''1.00/0.50''\<rparr>"
  proof -
    let ?e = "(NewDetector exampleConfig)\<lparr>tokenizedSpam := [[(''pills'', 1)], [(''win'', 1)]]\<rparr>"
    have t: "tokenize asciiLib ?e ''win'' = [(''win'', 1)]"
      by (simp add: tokenize_defs example_defs)
    have g: "SimilarityThreshold (config (NewDetector exampleConfig)) = F64 (1 / 2)"
      by (simp add: exampleConfig_def NewDetector_def)
    show ?thesis
      by (simp add: isSpamSimilarityHigh_def t g c f Let_def)
  qed
  let ?big = "[(''win'', 1 :: goint), (''big'', 1), (''prize'', 1), (''now'', 1)]"
  let ?m = "(NewDetector (exampleConfig\<lparr>SimilarityThreshold := F64 (3 / 4)\<rparr>))
              \<lparr>tokenizedSpam := [[(''pills'', 1)], ?big]\<rparr>"
  have c4: "cosineSimilarity [(''win'', 1)] ?big = F64 (1 / 2)"
    by (simp add: cosineSimilarity_def mapGet_def f64_of_int_def rnd_1 rnd_2 rnd_4 rnd_half)
  have tm': "[(''win'', 1)] = tokenize asciiLib ?m ''win''"
    by (simp add: tokenize_defs example_defs)
  have thr': "F64 (3 / 4) = SimilarityThreshold (config ?m)"
    by (simp add: example_defs)
  have sm: "tokenizedSpam ?m = [[(''pills'', 1)], ?big]"
    by simp
  note t' = similarity_check[OF tm' thr']
  have n: "\<not> (\<exists>s \<in> set (tokenizedSpam ?m). f64_ge (cosineSimilarity [(''win'', 1)] s) (F64 (3 / 4)))"
    unfolding sm by (simp add: c c4)
  have rg: "(\<forall>a \<in> set ([(''win'', 1)] # tokenizedSpam ?m).
              distinct (map fst a) \<and> (\<forall>(k, v) \<in> set a. 0 < sint v) \<and>
              (\<Sum>(k, v)\<leftarrow>a. sint v * sint v) < 2 ^ 63) \<and> tokenizedSpam ?m \<noteq> []"
    unfolding sm by simp
  have ham: "\<not> Spam (isSpamSimilarityHigh asciiLib ?m ''win'')"
    using t' n by blast
  with t' rg obtain mx where
    mx: "Details (isSpamSimilarityHigh asciiLib ?m ''win'') =
           sprintf_f2 asciiLib mx @ ''/'' @ sprintf_f2 asciiLib (F64 (3 / 4))"
        "mx \<in> cosineSimilarity [(''win'', 1)] ` set (tokenizedSpam ?m)"
        "\<forall>s \<in> set (tokenizedSpam ?m). f64_ge mx (cosineSimilarity [(''win'', 1)] s)"
    by blast
  have "mx = F64 (1 / 2)"
    using mx(2,3) unfolding sm by (auto simp: c c4)
  then have "Details (isSpamSimilarityHigh asciiLib ?m ''win'') = ''0.50/0.75''"
    using mx(1) by (simp add: f)
  moreover have "Name (isSpamSimilarityHigh asciiLib ?m ''win'') = ''similarity''"
    using t' by blast
  ultimately have 4: "isSpamSimilarityHigh asciiLib ?m ''win'' =
      \<lparr>Name = ''similarity'', Spam = False, Details = ''0.50/0.75''\<rparr>"
    using ham by (cases "isSpamSimilarityHigh asciiLib ?m ''win''") simp
  show ?thesis
    using tm[symmetric] thr[symmetric] c c4 1 2 3 4 by simp
qed

text \<open>
  C8 as stated fails: for a message that repeats one token 3037000500 times the
  square of the count, \<open>9223372037000250000\<close>, exceeds \<open>2^63 - 1\<close> and \<open>normA\<close> wraps
  to a negative number, whose square root is NaN. The similarity with the stored
  sample \<open>{aaa: 1}\<close> is NaN, which is neither greater than the start value 0 of the
  maximum nor at least the threshold: the check returns ham with the details
  \<open>0.00/0.50\<close>, and 0 is not the similarity of any sample.
\<close>

theorem similarity_check_overflow:
  "tokenize asciiLib ((NewDetector exampleConfig)\<lparr>tokenizedSpam := [[(''aaa'', 1)]]\<rparr>)
     (concat (replicate 3037000500 ''aaa '')) = [(''aaa'', 3037000500)] \<and>
   sint (3037000500 * 3037000500 :: goint) = - 9223372036709301616 \<and>
   cosineSimilarity [(''aaa'', 3037000500)] [(''aaa'', 1)] = NaN \<and>
   isSpamSimilarityHigh asciiLib ((NewDetector exampleConfig)\<lparr>tokenizedSpam := [[(''aaa'', 1)]]\<rparr>)
     (concat (replicate 3037000500 ''aaa '')) =
     \<lparr>Name = ''similarity'', Spam = False, Details = ''0.00/0.50''\<rparr> \<and>
   sprintf_f2 asciiLib (cosineSimilarity [(''aaa'', 3037000500)] [(''aaa'', 1)]) = ''NaN''"
proof -
  let ?d = "(NewDetector exampleConfig)\<lparr>tokenizedSpam := [[(''aaa'', 1)]]\<rparr>"
  have e: "excludedTokens ?d = []" by (simp add: NewDetector_def Let_def)
  have t: "tokenize asciiLib ?d (concat (replicate 3037000500 ''aaa '')) = [(''aaa'', 3037000500)]"
    using tokenize_repeat[OF e, of 3037000500] by simp
  have n: "sint (3037000500 * 3037000500 :: goint) = - 9223372036709301616"
    by simp
  have "rnd (- 9223372036709301616) < 0"
    by (rule rnd_neg) simp
  then have c: "cosineSimilarity [(''aaa'', 3037000500)] [(''aaa'', 1)] = NaN"
    by (simp add: cosineSimilarity_def mapGet_def f64_of_int_def n)
  have g: "SimilarityThreshold (config (NewDetector exampleConfig)) = F64 (1 / 2)"
    by (simp add: exampleConfig_def NewDetector_def)
  have f: "sprintf_f2 asciiLib (F64 0) = ''0.00''" "sprintf_f2 asciiLib (F64 (1 / 2)) = ''0.50''"
          "sprintf_f2 asciiLib NaN = ''NaN''"
    by (simp_all add: asciiLib_def showFixed2_def roundHalfEven_def)
  have "isSpamSimilarityHigh asciiLib ?d (concat (replicate 3037000500 ''aaa '')) =
          \<lparr>Name = ''similarity'', Spam = False, Details = ''0.00/0.50''\<rparr>"
    by (simp add: isSpamSimilarityHigh_def t g c f Let_def)
  then show ?thesis using t n c f by simp
qed

subsection \<open>C9: cosine similarity\<close>

lemma cosineSimilarity_self:
  assumes "a \<noteq> []" "distinct (map fst a)" "\<forall>(k, v) \<in> set a. 0 < sint v"
      and "(\<Sum>(k, v)\<leftarrow>a. sint v * sint v) < 2 ^ 63"
  shows "\<exists>x. cosineSimilarity a a = F64 x \<and> \<bar>x - 1\<bar> \<le> 1 / 2 ^ 50"
proof -
  define n :: goint where "n = (\<Sum>(k, v)\<leftarrow>a. v * v)"
  define N :: real where "N = rnd (of_int (sint n))"
  have sn: "0 < sint n"
    using sint_sum_squares[OF assms(4)] sum_squares_pos[OF assms(1,3)] by (simp add: n_def)
  then have n0: "n \<noteq> 0" by auto
  have "0 < (of_int (sint n) :: real)" using sn by (simp only: of_int_0_less_iff)
  then have N: "0 < N" unfolding N_def by (rule rnd_pos)
  have c: "cosineSimilarity a a =
      f64_div (f64_of_int n) (f64_mul (f64_sqrt (f64_of_int n)) (f64_sqrt (f64_of_int n)))"
    using assms(1) n0 by (simp add: cosineSimilarity_sums dot_self[OF assms(2)] n_def)
  have f: "f64_of_int n = F64 N" by (simp add: f64_of_int_def N_def)
  note b = self_similarity_bound[OF N]
  have "cosineSimilarity a a = F64 (rnd (N / rnd (rnd (sqrt N) * rnd (sqrt N))))"
    using N b(1) by (simp add: c f)
  then show ?thesis using b(2) by blast
qed

text \<open>
  C9, as amended. For token-frequency maps (lists with distinct keys):
  \<open>cos(a, b) = cos(b, a)\<close>; \<open>cos\<close> is 0 when either argument is empty; and
  \<open>cos(a, a)\<close>, for a non-empty map of positive counts whose squares sum to less than
  \<open>2^63\<close>, is a number within \<open>2^-50\<close> of 1. It need not be 1: the square root, the
  product and the quotient are each rounded to binary64.
\<close>

theorem cosineSimilarity_laws:
  "(distinct (map fst a) \<and> distinct (map fst b) \<longrightarrow>
      cosineSimilarity a b = cosineSimilarity b a) \<and>
   cosineSimilarity a [] = F64 0 \<and> cosineSimilarity [] b = F64 0 \<and>
   (a \<noteq> [] \<and> distinct (map fst a) \<and> (\<forall>(k, v) \<in> set a. 0 < sint v) \<and>
    (\<Sum>(k, v)\<leftarrow>a. sint v * sint v) < 2 ^ 63 \<longrightarrow>
      (\<exists>x. cosineSimilarity a a = F64 x \<and> \<bar>x - 1\<bar> \<le> 1 / 2 ^ 50))"
  using cosineSimilarity_sym[of a b] cosineSimilarity_self[of a]
  by (simp add: cosineSimilarity_def)

text \<open>The map \<open>{aaa: 1, bbb: 1}\<close> against itself and against \<open>{aaa: 2, ccc: 1}\<close>.\<close>

theorem cosineSimilarity_laws_witness:
  "distinct (map fst [(''aaa'', 1 :: goint), (''bbb'', 1)]) \<and>
   distinct (map fst [(''aaa'', 2 :: goint), (''ccc'', 1)]) \<and>
   (\<Sum>(k, v)\<leftarrow>[(''aaa'', 1 :: goint), (''bbb'', 1)]. sint v * sint v) = 2 \<and>
   cosineSimilarity [(''aaa'', 1), (''bbb'', 1)] [(''aaa'', 2), (''ccc'', 1)] =
     cosineSimilarity [(''aaa'', 2), (''ccc'', 1)] [(''aaa'', 1), (''bbb'', 1)] \<and>
   (\<exists>x. cosineSimilarity [(''aaa'', 1), (''bbb'', 1)] [(''aaa'', 1), (''bbb'', 1)] = F64 x \<and>
        \<bar>x - 1\<bar> \<le> 1 / 2 ^ 50)"
proof -
  let ?a = "[(''aaa'', 1 :: goint), (''bbb'', 1)]"
  let ?b = "[(''aaa'', 2 :: goint), (''ccc'', 1)]"
  have d: "distinct (map fst ?a)" "distinct (map fst ?b)" by simp_all
  have p: "?a \<noteq> []" "\<forall>(k, v) \<in> set ?a. 0 < sint v" by simp_all
  have s: "(\<Sum>(k, v)\<leftarrow>?a. sint v * sint v) = 2" by simp
  then have s': "(\<Sum>(k, v)\<leftarrow>?a. sint v * sint v) < 2 ^ 63" by simp
  from cosineSimilarity_laws[of ?a ?b] d p s'
  have "cosineSimilarity ?a ?b = cosineSimilarity ?b ?a"
       "\<exists>x. cosineSimilarity ?a ?a = F64 x \<and> \<bar>x - 1\<bar> \<le> 1 / 2 ^ 50"
    by blast+
  with d s show ?thesis by blast
qed

text \<open>
  C9 as stated fails: for \<open>a = {aaa: 1, bbb: 1}\<close> the squared norm is 2; the square
  root of 2 rounds to \<open>6369051672525773 / 2^52\<close>, its square to \<open>2 + 2^-51\<close>, and
  \<open>2 / (2 + 2^-51)\<close> to \<open>1 - 2^-52\<close>, which is what \<open>cos(a, a)\<close> returns.
\<close>

theorem cosineSimilarity_self_rounded:
  "cosineSimilarity [(''aaa'', 1), (''bbb'', 1)] [(''aaa'', 1), (''bbb'', 1)] =
     F64 (1 - 1 / 2 ^ 52) \<and>
   cosineSimilarity [(''aaa'', 1), (''bbb'', 1)] [(''aaa'', 1), (''bbb'', 1)] \<noteq> F64 1"
proof -
  define r :: real where "r = 6369051672525773 * pow2 (- 52)"
  define p :: real where "p = 4503599627370497 * pow2 (- 51)"
  define c :: real where "c = 9007199254740990 * pow2 (- 53)"
  have c0: "cosineSimilarity [(''aaa'', 1), (''bbb'', 1)] [(''aaa'', 1), (''bbb'', 1)] =
      f64_div (f64_of_int 2) (f64_mul (f64_sqrt (f64_of_int 2)) (f64_sqrt (f64_of_int 2)))"
    by (simp add: cosineSimilarity_def mapGet_def)
  have n: "f64_of_int 2 = F64 2"
    by (simp add: f64_of_int_def rnd_2)
  have s: "f64_sqrt (F64 2) = F64 r"
    by (simp add: rnd_sqrt2 r_def)
  have "rnd (r * r) = of_int 4503599627370497 * pow2 (1 - 52)"
    by (rule rnd_eval) (simp_all add: r_def pow2_def)
  then have m: "f64_mul (F64 r) (F64 r) = F64 p"
    by (simp add: p_def)
  have "rnd (2 / p) = of_int 9007199254740990 * pow2 (- 1 - 52)"
    by (rule rnd_eval) (simp_all add: p_def pow2_def)
  moreover have "p \<noteq> 0" by (simp add: p_def pow2_def)
  ultimately have q: "f64_div (F64 2) (F64 p) = F64 c"
    by (simp add: c_def)
  have "c = 1 - 1 / 2 ^ 52" by (simp add: c_def pow2_def)
  then show ?thesis
    unfolding c0 n s m q by simp
qed

end
